theory Spec2Isabelle
  imports Complex_Main
begin

section \<open>JavaScript values used by the player\<close>

text \<open>
  The player is the class \<open>WebRTCPlayer\<close> of \<open>src/html/players/webrtc.js\<close>.
  JavaScript numbers are modelled as exact reals (no rounding, no infinities); where the
  source can produce \<open>NaN\<close> from an absent field the model says so with \<open>None\<close>.
  An optional field of an object is an \<open>option\<close>: \<open>None\<close> is \<open>undefined\<close>.
  Strings are lists of characters; a character stands for one code unit below 256.
\<close>

text \<open>\<open>x || 0\<close> on an optional number: \<open>undefined\<close> (and 0 itself) gives 0.\<close>

definition or0 :: "real option \<Rightarrow> real" where
  "or0 x = (case x of None \<Rightarrow> 0 | Some v \<Rightarrow> v)"

text \<open>\<open>String.prototype.includes\<close>: does \<open>t\<close> occur in \<open>s\<close> as a contiguous run?\<close>

fun starts_with :: "string \<Rightarrow> string \<Rightarrow> bool" where
  "starts_with s [] = True"
| "starts_with [] (c # t) = False"
| "starts_with (d # s) (c # t) = (d = c \<and> starts_with s t)"

fun js_includes :: "string \<Rightarrow> string \<Rightarrow> bool" where
  "js_includes [] t = starts_with [] t"
| "js_includes (d # s) t = (starts_with (d # s) t \<or> js_includes s t)"

text \<open>Decimal rendering of a non-negative integer inside a template literal.\<close>

definition digit_char :: "nat \<Rightarrow> char" where
  "digit_char n = ''0123456789'' ! (n mod 10)"

function string_of_nat :: "nat \<Rightarrow> string" where
  "string_of_nat n =
     (if n < 10 then [digit_char n] else string_of_nat (n div 10) @ [digit_char n])"
  by pat_completeness auto
termination
  by (relation "measure id") auto

section \<open>Constants\<close>

definition RECONNECT_DELAY :: nat where
  "RECONNECT_DELAY = 3000"

definition MAX_RECONNECT_ATTEMPTS :: nat where
  "MAX_RECONNECT_ATTEMPTS = 5"

definition STATS_HISTORY_SIZE :: nat where
  "STATS_HISTORY_SIZE = 60"

section \<open>SDP parameter extraction\<close>

subsection \<open>The regular expressions of \<open>extractVideoParams\<close>\<close>

text \<open>
  The patterns of the source are sequences of literals, an optional character, and
  greedy repetitions of a character class (\<open>.*\<close>, \<open>\d+\<close>, \<open>\s+\<close>, \<open>\S+\<close>, \<open>\w+\<close>), some of
  them capturing. \<open>bt\<close> is the backtracking matcher anchored at the start of its input:
  a repetition first takes as many characters as it can and gives them back one by one
  while the rest of the pattern fails. \<open>js_match\<close> is \<open>String.prototype.match\<close> for a
  pattern without the \<open>g\<close> flag: the match at the leftmost position that has one, as
  the list of its captures.
\<close>

abbreviation LF :: char where
  "LF \<equiv> CHR 0x0A"

abbreviation CR :: char where
  "CR \<equiv> CHR 0x0D"

definition is_digit :: "char \<Rightarrow> bool" where
  "is_digit c = (c \<in> set ''0123456789'')"

definition is_word :: "char \<Rightarrow> bool" where
  "is_word c =
     (c \<in> set ''abcdefghijklmnopqrstuvwxyzABCDEFGHIJKLMNOPQRSTUVWXYZ0123456789_'')"

text \<open>\<open>[0-9a-f]\<close> under the \<open>i\<close> flag.\<close>

definition is_hex :: "char \<Rightarrow> bool" where
  "is_hex c = (c \<in> set ''0123456789abcdefABCDEF'')"

text \<open>\<open>\s\<close>: tab, line feed, vertical tab, form feed, carriage return, space, no-break space.\<close>

definition is_space :: "char \<Rightarrow> bool" where
  "is_space c = (c \<in> set [CHR 0x09, LF, CHR 0x0B, CHR 0x0C, CR, CHR 0x20, CHR 0xA0])"

definition is_nonspace :: "char \<Rightarrow> bool" where
  "is_nonspace c = (\<not> is_space c)"

text \<open>\<open>.\<close>: any character but a line terminator.\<close>

definition is_dot :: "char \<Rightarrow> bool" where
  "is_dot c = (c \<noteq> LF \<and> c \<noteq> CR)"

text \<open>The canonical form the \<open>i\<close> flag compares: the upper case of an ASCII letter.\<close>

definition canon :: "char \<Rightarrow> char" where
  "canon c =
     (let n = (of_char c :: nat) in if 97 \<le> n \<and> n \<le> 122 then char_of (n - 32) else c)"

datatype piece =
    Lit string
  | LitI string
  | Opt char
  | Star "char \<Rightarrow> bool"
  | Plus "char \<Rightarrow> bool"
  | Cap "char \<Rightarrow> bool"

text \<open>
  \<open>try_down f lo n\<close>: the first \<open>f k\<close> that succeeds for \<open>k = n, n - 1, \<dots>, lo\<close>: the lengths
  a greedy repetition tries, longest first.
\<close>

fun try_down :: "(nat \<Rightarrow> 'a option) \<Rightarrow> nat \<Rightarrow> nat \<Rightarrow> 'a option" where
  "try_down f lo 0 = (if lo = 0 then f 0 else None)"
| "try_down f lo (Suc k) =
     (if Suc k < lo then None
      else case f (Suc k) of Some r \<Rightarrow> Some r | None \<Rightarrow> try_down f lo k)"

fun bt :: "piece list \<Rightarrow> string \<Rightarrow> string list \<Rightarrow> string list option" where
  "bt [] s caps = Some caps"
| "bt (Lit l # ps) s caps =
     (if starts_with s l then bt ps (drop (length l) s) caps else None)"
| "bt (LitI l # ps) s caps =
     (if length l \<le> length s \<and> map canon (take (length l) s) = map canon l
      then bt ps (drop (length l) s) caps else None)"
| "bt (Opt c # ps) s caps =
     (if starts_with s [c]
      then (case bt ps (tl s) caps of Some r \<Rightarrow> Some r | None \<Rightarrow> bt ps s caps)
      else bt ps s caps)"
| "bt (Star C # ps) s caps =
     try_down (\<lambda>k. bt ps (drop k s) caps) 0 (length (takeWhile C s))"
| "bt (Plus C # ps) s caps =
     try_down (\<lambda>k. bt ps (drop k s) caps) 1 (length (takeWhile C s))"
| "bt (Cap C # ps) s caps =
     try_down (\<lambda>k. bt ps (drop k s) (caps @ [take k s])) 1 (length (takeWhile C s))"

fun js_match :: "piece list \<Rightarrow> string \<Rightarrow> string list option" where
  "js_match ps [] = bt ps [] []"
| "js_match ps (c # cs) =
     (case bt ps (c # cs) [] of Some r \<Rightarrow> Some r | None \<Rightarrow> js_match ps cs)"

text \<open>\<open>m[i + 1]\<close> of a match result \<open>m\<close>, when there is a match.\<close>

definition group :: "nat \<Rightarrow> string list option \<Rightarrow> string option" where
  "group i m =
     (case m of None \<Rightarrow> None
              | Some caps \<Rightarrow> if i < length caps then Some (caps ! i) else None)"

text \<open>\<open>parseInt\<close> on a run of decimal digits.\<close>

definition digit_val :: "char \<Rightarrow> nat" where
  "digit_val c = of_char c - 48"

definition parseInt :: "string \<Rightarrow> nat" where
  "parseInt ds = foldl (\<lambda>a c. 10 * a + digit_val c) 0 ds"

text \<open>\<open>/a=framerate:(\d+)/\<close>\<close>

definition re_framerate :: "piece list" where
  "re_framerate = [Lit ''a=framerate:'', Cap is_digit]"

text \<open>\<open>/a=fmtp:\d+.*max-fr=(\d+)/\<close>\<close>

definition re_fmtp :: "piece list" where
  "re_fmtp = [Lit ''a=fmtp:'', Plus is_digit, Star is_dot, Lit ''max-fr='', Cap is_digit]"

text \<open>\<open>/m=video.*\r?\n.*\r?\na=rtpmap:(\d+)\s+(\S+)/\<close>\<close>

definition re_codec :: "piece list" where
  "re_codec =
     [Lit ''m=video'', Star is_dot, Opt CR, Lit [LF], Star is_dot, Opt CR, Lit [LF],
      Lit ''a=rtpmap:'', Cap is_digit, Plus is_space, Cap is_nonspace]"

text \<open>\<open>/profile-level-id=([0-9a-f]+)/i\<close>\<close>

definition re_profile_level :: "piece list" where
  "re_profile_level = [LitI ''profile-level-id='', Cap is_hex]"

text \<open>\<open>/profile-id=(\d+)/\<close>\<close>

definition re_profile :: "piece list" where
  "re_profile = [Lit ''profile-id='', Cap is_digit]"

text \<open>\<open>/level-id=(\d+)/\<close>\<close>

definition re_level :: "piece list" where
  "re_level = [Lit ''level-id='', Cap is_digit]"

text \<open>\<open>/tier-flag=(\d+)/\<close>\<close>

definition re_tier :: "piece list" where
  "re_tier = [Lit ''tier-flag='', Cap is_digit]"

text \<open>\<open>/tx-mode=(\w+)/\<close>\<close>

definition re_tx_mode :: "piece list" where
  "re_tx_mode = [Lit ''tx-mode='', Cap is_word]"

subsection \<open>\<open>extractVideoParams\<close>\<close>

record video_params =
  framerate :: "nat option"
  maxFramerate :: "nat option"
  codec :: "string option"
  profileLevelId :: "string option"
  h265ProfileId :: "nat option"
  levelId :: "nat option"
  tierFlag :: "nat option"
  txMode :: "string option"

definition extractVideoParams :: "string \<Rightarrow> video_params" where
  "extractVideoParams sdp =
     \<lparr> framerate = map_option parseInt (group 0 (js_match re_framerate sdp)),
       maxFramerate = map_option parseInt (group 0 (js_match re_fmtp sdp)),
       codec = group 1 (js_match re_codec sdp),
       profileLevelId = group 0 (js_match re_profile_level sdp),
       h265ProfileId = map_option parseInt (group 0 (js_match re_profile sdp)),
       levelId = map_option parseInt (group 0 (js_match re_level sdp)),
       tierFlag = map_option parseInt (group 0 (js_match re_tier sdp)),
       txMode = group 0 (js_match re_tx_mode sdp) \<rparr>"

subsection \<open>Codec classification\<close>

text \<open>\<open>String.prototype.toLowerCase\<close> on code units below 256.\<close>

definition js_lower_char :: "char \<Rightarrow> char" where
  "js_lower_char c =
     (let n = (of_char c :: nat)
      in if (65 \<le> n \<and> n \<le> 90) \<or> (192 \<le> n \<and> n \<le> 222 \<and> n \<noteq> 215)
         then char_of (n + 32) else c)"

definition toLowerCase :: "string \<Rightarrow> string" where
  "toLowerCase s = map js_lower_char s"

text \<open>
  The codec detection inside the \<open>setRemoteDescription\<close> override of \<open>startPlaying\<close>:
  the new value of \<open>this.state.codecType\<close>, given its old value.
\<close>

definition detectCodecType :: "video_params \<Rightarrow> string option \<Rightarrow> string option" where
  "detectCodecType videoParams old =
     (case codec videoParams of
        Some name \<Rightarrow>
          if js_includes (toLowerCase name) ''h265'' \<or> js_includes (toLowerCase name) ''hevc''
          then Some ''H265/HEVC''
          else if js_includes (toLowerCase name) ''h264'' \<or> js_includes (toLowerCase name) ''avc''
          then Some ''H264/AVC''
          else if js_includes (toLowerCase name) ''vp8'' then Some ''VP8''
          else if js_includes (toLowerCase name) ''vp9'' then Some ''VP9''
          else if js_includes (toLowerCase name) ''av1'' then Some ''AV1''
          else Some name
      | None \<Rightarrow>
          (case h265ProfileId videoParams of Some i \<Rightarrow> Some ''H265/HEVC'' | None \<Rightarrow> old))"

section \<open>Statistics\<close>

subsection \<open>Raw statistics\<close>

text \<open>
  The fields of an \<open>inbound-rtp\<close> entry of \<open>getStats()\<close> that the derived metrics read.
  Fields that \<open>parseStats\<close> only copies into the report for display are left out.
\<close>

record inbound_rtp =
  timestamp :: real
  bytesReceived :: "real option"
  packetsLost :: "real option"
  packetsReceived :: "real option"
  jitter :: "real option"
  framesPerSecond :: "real option"
  framesDecoded :: "real option"
  framesDropped :: "real option"
  keyFramesDecoded :: "real option"

text \<open>
  One entry of the statistics collection, by the branch of \<open>parseStats\<close> that takes it.
  \<open>CandidatePair\<close> is a \<open>candidate-pair\<close> in state \<open>succeeded\<close>, with its
  \<open>currentRoundTripTime\<close>. \<open>OtherStat\<close> is every entry whose branch fills only the
  display parts of the report (transport, codec, candidates, streams) or no branch.
\<close>

datatype stat =
    InboundVideo inbound_rtp
  | InboundAudio inbound_rtp
  | CandidatePair "real option"
  | OtherStat

subsection \<open>The report\<close>

text \<open>
  \<open>report.video\<close> and \<open>report.audio\<close>, without the fields that are only displayed. A
  bitrate of \<open>None\<close> is \<open>NaN\<close>: the entry carried no \<open>bytesReceived\<close>.
\<close>

record video_report =
  v_fps :: real
  v_measuredFps :: real
  v_performanceFps :: real
  v_videoFrameCallbackFps :: real
  v_bytesReceived :: real
  v_bitrate :: "real option"
  v_packetsLost :: real
  v_packetsReceived :: real
  v_jitter :: real
  v_framesDecoded :: real
  v_framesDropped :: real
  v_frameDropRate :: real
  v_keyFramesDecoded :: real
  v_timestamp :: real

record audio_report =
  a_bytesReceived :: real
  a_bitrate :: "real option"
  a_packetsLost :: real
  a_packetsReceived :: real
  a_jitter :: real
  a_timestamp :: real

text \<open>
  The report starts with \<open>video: {}\<close>, \<open>audio: {}\<close>, \<open>connection: {}\<close>: \<open>None\<close> is the
  empty object, every field of which is \<open>undefined\<close>. \<open>r_rtt\<close> is \<open>report.connection.rtt\<close>.
\<close>

record report =
  r_video :: "video_report option"
  r_audio :: "audio_report option"
  r_rtt :: "real option"

definition emptyReport :: report where
  "emptyReport = \<lparr> r_video = None, r_audio = None, r_rtt = None \<rparr>"

subsection \<open>Derived metrics\<close>

text \<open>
  \<open>(stat.timestamp - prev.timestamp) / 1000 || 1\<close>, where \<open>prev\<close> is the retained
  entry of the same kind, or \<open>{}\<close> (here \<open>None\<close>) before the first sample: without a
  previous timestamp the difference is \<open>NaN\<close>, and \<open>NaN\<close> and 0 both give 1.
\<close>

definition timeDiff :: "inbound_rtp option \<Rightarrow> inbound_rtp \<Rightarrow> real" where
  "timeDiff prev s =
     (case prev of
        None \<Rightarrow> 1
      | Some p \<Rightarrow> if (timestamp s - timestamp p) / 1000 = 0 then 1
                  else (timestamp s - timestamp p) / 1000)"

text \<open>\<open>prev.field || 0\<close> on the retained entry.\<close>

definition prev0 :: "(inbound_rtp \<Rightarrow> real option) \<Rightarrow> inbound_rtp option \<Rightarrow> real" where
  "prev0 field prev = (case prev of None \<Rightarrow> 0 | Some p \<Rightarrow> or0 (field p))"

text \<open>\<open>((stat.bytesReceived - (prev.bytesReceived || 0)) * 8) / timeDiff\<close>\<close>

definition bitrate :: "inbound_rtp option \<Rightarrow> inbound_rtp \<Rightarrow> real option" where
  "bitrate prev s =
     (case bytesReceived s of
        None \<Rightarrow> None
      | Some b \<Rightarrow> Some (((b - prev0 bytesReceived prev) * 8) / timeDiff prev s))"

definition framesDecodedDelta :: "inbound_rtp option \<Rightarrow> inbound_rtp \<Rightarrow> real" where
  "framesDecodedDelta prev s = or0 (framesDecoded s) - prev0 framesDecoded prev"

definition framesDroppedDelta :: "inbound_rtp option \<Rightarrow> inbound_rtp \<Rightarrow> real" where
  "framesDroppedDelta prev s = or0 (framesDropped s) - prev0 framesDropped prev"

definition frameDropRate :: "inbound_rtp option \<Rightarrow> inbound_rtp \<Rightarrow> real" where
  "frameDropRate prev s =
     (let totalFramesDelta = framesDecodedDelta prev s + framesDroppedDelta prev s
      in if totalFramesDelta > 0 then (framesDroppedDelta prev s / totalFramesDelta) * 100
         else 0)"

text \<open>
  \<open>Number.prototype.toFixed(2)\<close>, as the number its result denotes: the nearest
  multiple of 1/100, the larger one on a tie, on the absolute value.
\<close>

definition toFixed2 :: "real \<Rightarrow> real" where
  "toFixed2 x =
     (if x < 0 then - (of_int \<lfloor>- x * 100 + 1 / 2\<rfloor> / 100)
      else of_int \<lfloor>x * 100 + 1 / 2\<rfloor> / 100)"

text \<open>
  \<open>packetLossRate\<close> of \<open>renderStatsTab\<close>, before and after \<open>toFixed(2)\<close>. The audio
  section computes \<open>audioPacketLossRate\<close> by the same expression.
\<close>

definition packetLossRatio :: "real \<Rightarrow> real \<Rightarrow> real" where
  "packetLossRatio lost received =
     (if received > 0 then (lost / (lost + received)) * 100 else 0)"

definition packetLossRate :: "video_report \<Rightarrow> real" where
  "packetLossRate v =
     (if v_packetsReceived v > 0
      then toFixed2 (packetLossRatio (v_packetsLost v) (v_packetsReceived v))
      else 0)"

definition audioPacketLossRate :: "audio_report \<Rightarrow> real" where
  "audioPacketLossRate a =
     (if a_packetsReceived a > 0
      then toFixed2 (packetLossRatio (a_packetsLost a) (a_packetsReceived a))
      else 0)"

subsection \<open>Presentation metrics and history\<close>

text \<open>\<open>this.performanceMetrics\<close>; \<open>pm_fps\<close> is its field \<open>fps\<close>, which nothing writes.\<close>

record performanceMetrics =
  pm_fps :: real
  keyFrameTimestamps :: "real list"
  lastKeyFrameTime :: real
  maxFpsAchieved :: real
  videoFrameCallbackFps :: real
  lastPresentedFrames :: real

definition initialPerformanceMetrics :: performanceMetrics where
  "initialPerformanceMetrics =
     \<lparr> pm_fps = 0, keyFrameTimestamps = [], lastKeyFrameTime = 0, maxFpsAchieved = 0,
       videoFrameCallbackFps = 0, lastPresentedFrames = 0 \<rparr>"

text \<open>\<open>this.statsHistory\<close>: one series per tracked metric.\<close>

record statsHistory =
  h_fps :: "real list"
  h_bitrate :: "real option list"
  h_packetLoss :: "real list"
  h_jitter :: "real list"
  h_rtt :: "real list"
  h_framesDecoded :: "real list"
  h_framesDropped :: "real list"
  h_keyFrameInterval :: "real list"
  h_videoFrameCallbackFps :: "real list"

definition initialStatsHistory :: statsHistory where
  "initialStatsHistory =
     \<lparr> h_fps = [], h_bitrate = [], h_packetLoss = [], h_jitter = [], h_rtt = [],
       h_framesDecoded = [], h_framesDropped = [], h_keyFrameInterval = [],
       h_videoFrameCallbackFps = [] \<rparr>"

text \<open>
  \<open>xs.push(v); if (xs.length > maxHistory) xs.shift();\<close>: the statement pair that
  \<open>updateStatsHistory\<close> repeats for each series it feeds.
\<close>

definition push_shift :: "nat \<Rightarrow> 'a list \<Rightarrow> 'a \<Rightarrow> 'a list" where
  "push_shift maxHistory xs v =
     (if length (xs @ [v]) > maxHistory then tl (xs @ [v]) else xs @ [v])"

definition updateStatsHistory :: "report \<Rightarrow> statsHistory \<Rightarrow> statsHistory" where
  "updateStatsHistory r h =
     (let maxHistory = STATS_HISTORY_SIZE;
          h1 = (case r_video r of
                  None \<Rightarrow> h
                | Some v \<Rightarrow> h\<lparr> h_fps := push_shift maxHistory (h_fps h) (v_fps v) \<rparr>);
          h2 = (case r_video r of
                  None \<Rightarrow> h1
                | Some v \<Rightarrow> h1\<lparr> h_videoFrameCallbackFps :=
                    push_shift maxHistory (h_videoFrameCallbackFps h1) (v_videoFrameCallbackFps v) \<rparr>);
          h3 = (case r_audio r of
                  None \<Rightarrow> h2
                | Some a \<Rightarrow> h2\<lparr> h_bitrate := push_shift maxHistory (h_bitrate h2) (a_bitrate a) \<rparr>);
          h4 = (case r_rtt r of
                  None \<Rightarrow> h3
                | Some t \<Rightarrow> h3\<lparr> h_rtt := push_shift maxHistory (h_rtt h3) t \<rparr>);
          h5 = (case r_video r of
                  None \<Rightarrow> h4
                | Some v \<Rightarrow> h4\<lparr> h_framesDecoded :=
                    push_shift maxHistory (h_framesDecoded h4) (v_framesDecoded v) \<rparr>)
      in (case r_video r of
            None \<Rightarrow> h5
          | Some v \<Rightarrow> h5\<lparr> h_framesDropped :=
              push_shift maxHistory (h_framesDropped h5) (v_framesDropped v) \<rparr>))"

text \<open>
  The variables that one call of \<open>monitorVideoTrack\<close> closes over; \<open>scheduled\<close> says
  whether its \<open>onFrame\<close> is registered with \<open>requestVideoFrameCallback\<close>.
\<close>

record frame_monitor =
  frameCount :: real
  lastTime :: real
  lastPresented :: real
  scheduled :: bool

section \<open>The player object\<close>

text \<open>
  \<open>this.state\<close>, as \<open>initializeState\<close> builds it, without the zoom and drag fields and
  the counters that no method reads.
\<close>

record player_state =
  isPlaying :: bool
  reconnectAttempts :: nat
  connectionQuality :: string
  streamStartTime :: "real option"
  lastKeyFrameCount :: "real option"
  codecType :: "string option"

text \<open>
  The part of the page the connection methods write: the status badge, the error box,
  the loading spinner and the toolbar's \<open>force-show\<close> class.
\<close>

record elements =
  statusText :: string
  statusShown :: bool
  errorText :: string
  errorShown :: bool
  loadingShown :: bool
  toolbarForceShow :: bool

text \<open>
  Every \<open>setTimeout\<close> call is recorded, in call order, with what its callback does and
  its delay in milliseconds. The callbacks themselves run as events of their own.
\<close>

datatype timeout_action =
    HideConnectionStatus
  | HideError
  | HideToolbar
  | LogCodecs
  | CallStartPlaying

record player =
  st :: player_state
  el :: elements
  timeouts :: "(timeout_action \<times> nat) list"
  pm :: performanceMetrics
  hist :: statsHistory
  lastVideo :: "inbound_rtp option"
  lastAudio :: "inbound_rtp option"
  sdpRemote :: "string option"
  monitors :: "frame_monitor list"

definition initializeState :: player_state where
  "initializeState =
     \<lparr> isPlaying = False, reconnectAttempts = 0, connectionQuality = ''connecting'',
       streamStartTime = None, lastKeyFrameCount = Some 0, codecType = None \<rparr>"

definition initialElements :: elements where
  "initialElements =
     \<lparr> statusText = [], statusShown = False, errorText = [], errorShown = False,
       loadingShown = False, toolbarForceShow = False \<rparr>"

text \<open>The object the constructor has built when it calls \<open>init\<close>.\<close>

definition initialPlayer :: player where
  "initialPlayer =
     \<lparr> st = initializeState, el = initialElements, timeouts = [],
       pm = initialPerformanceMetrics, hist = initialStatsHistory,
       lastVideo = None, lastAudio = None, sdpRemote = None, monitors = [] \<rparr>"

definition setTimeout :: "timeout_action \<Rightarrow> nat \<Rightarrow> player \<Rightarrow> player" where
  "setTimeout a ms p = p\<lparr> timeouts := timeouts p @ [(a, ms)] \<rparr>"

subsection \<open>UI update methods\<close>

definition showLoading :: "bool \<Rightarrow> player \<Rightarrow> player" where
  "showLoading b p = p\<lparr> el := (el p)\<lparr> loadingShown := b \<rparr> \<rparr>"

definition showError :: "string \<Rightarrow> player \<Rightarrow> player" where
  "showError message p =
     setTimeout HideError 5000
       (p\<lparr> el := (el p)\<lparr> errorText := message, errorShown := True \<rparr> \<rparr>)"

definition updateConnectionStatus :: "string \<Rightarrow> string \<Rightarrow> player \<Rightarrow> player" where
  "updateConnectionStatus quality txt p =
     (let p1 = p\<lparr> st := (st p)\<lparr> connectionQuality := quality \<rparr>,
                    el := (el p)\<lparr> statusText := txt, statusShown := True \<rparr> \<rparr>
      in if quality = ''good'' then setTimeout HideConnectionStatus 3000 p1 else p1)"

subsection \<open>Connection establishment\<close>

text \<open>
  \<open>startPlaying\<close> is asynchronous. Up to \<open>await this.sdk.play(WEBRTC_URL)\<close> it runs
  at once (\<open>startPlaying_begin\<close>); the rest runs when the promise settles: after a
  resolution at time \<open>now\<close> the statements after the \<open>await\<close>, after a rejection (or an
  exception thrown inside the \<open>try\<close>) the \<open>catch\<close> with the error's message.
\<close>

datatype play_outcome = Resolved real | Rejected string

definition startPlaying_begin :: "player \<Rightarrow> player" where
  "startPlaying_begin p =
     updateConnectionStatus ''connecting'' ''Connecting...'' (showLoading True p)"

definition handlePlaybackError :: "string \<Rightarrow> player \<Rightarrow> player" where
  "handlePlaybackError message p =
     (let p1 = updateConnectionStatus ''bad'' ''Error'' (showLoading False p);
          errorMessage = ''Failed to start playback. '' @
            (if js_includes message ''Permission'' then ''Please allow camera/microphone access.''
             else if js_includes message ''NotFound'' then ''Stream not found.''
             else if js_includes message ''Network''
               then ''Network error. Please check your connection.''
             else if message \<noteq> [] then message else ''Unknown error.'')
      in showError errorMessage p1)"

definition startPlaying_resolved :: "real \<Rightarrow> player \<Rightarrow> player" where
  "startPlaying_resolved now p =
     (let p1 = updateConnectionStatus ''good'' ''Connected'' (showLoading False p);
          p2 = p1\<lparr> st := (st p1)\<lparr> isPlaying := True, reconnectAttempts := 0,
                                  streamStartTime := Some now \<rparr> \<rparr>;
          p3 = setTimeout HideToolbar 3000
                 (p2\<lparr> el := (el p2)\<lparr> toolbarForceShow := True \<rparr> \<rparr>)
      in setTimeout LogCodecs 2000 p3)"

definition startPlaying_settled :: "play_outcome \<Rightarrow> player \<Rightarrow> player" where
  "startPlaying_settled out p =
     (case out of Resolved now \<Rightarrow> startPlaying_resolved now p
                | Rejected message \<Rightarrow> handlePlaybackError message p)"

text \<open>The whole procedure, when nothing else runs while the promise is pending.\<close>

definition startPlaying :: "play_outcome \<Rightarrow> player \<Rightarrow> player" where
  "startPlaying out p = startPlaying_settled out (startPlaying_begin p)"

text \<open>The \<open>setRemoteDescription\<close> override installed by \<open>startPlaying\<close>.\<close>

definition setRemoteDescription :: "string \<Rightarrow> player \<Rightarrow> player" where
  "setRemoteDescription sdp p =
     p\<lparr> sdpRemote := Some sdp,
        st := (st p)\<lparr> codecType :=
                detectCodecType (extractVideoParams sdp) (codecType (st p)) \<rparr> \<rparr>"

subsection \<open>Connection monitoring and the reconnect policy\<close>

definition attemptReconnect :: "player \<Rightarrow> player" where
  "attemptReconnect p =
     (if reconnectAttempts (st p) \<ge> MAX_RECONNECT_ATTEMPTS
      then showError ''Connection lost. Please refresh the page.'' p
      else
        let p1 = p\<lparr> st := (st p)\<lparr> reconnectAttempts := reconnectAttempts (st p) + 1 \<rparr> \<rparr>;
            p2 = updateConnectionStatus ''connecting''
                   (''Reconnecting... ('' @ string_of_nat (reconnectAttempts (st p1)) @ ''/'' @
                      string_of_nat MAX_RECONNECT_ATTEMPTS @ '')'') p1
        in setTimeout CallStartPlaying RECONNECT_DELAY p2)"

text \<open>
  The \<open>connectionstatechange\<close> listener that \<open>monitorConnection\<close> installs; its argument
  is the value of \<open>pc.connectionState\<close>.
\<close>

definition onConnectionStateChange :: "string \<Rightarrow> player \<Rightarrow> player" where
  "onConnectionStateChange s p =
     (if s = ''connected'' then updateConnectionStatus ''good'' ''Connected'' p
      else if s = ''connecting'' then updateConnectionStatus ''connecting'' ''Connecting...'' p
      else if s = ''disconnected'' then
        attemptReconnect (updateConnectionStatus ''bad'' ''Disconnected'' p)
      else if s = ''failed'' then
        attemptReconnect (updateConnectionStatus ''bad'' ''Connection Failed'' p)
      else p)"

text \<open>The callbacks of the recorded timeouts, as far as they write the modelled fields.\<close>

definition onTimeout :: "timeout_action \<Rightarrow> player \<Rightarrow> player" where
  "onTimeout a p =
     (case a of
        HideConnectionStatus \<Rightarrow> p\<lparr> el := (el p)\<lparr> statusShown := False \<rparr> \<rparr>
      | HideError \<Rightarrow> p\<lparr> el := (el p)\<lparr> errorShown := False \<rparr> \<rparr>
      | HideToolbar \<Rightarrow> p\<lparr> el := (el p)\<lparr> toolbarForceShow := False \<rparr> \<rparr>
      | LogCodecs \<Rightarrow> p
      | CallStartPlaying \<Rightarrow> startPlaying_begin p)"

subsection \<open>The presentation monitor\<close>

text \<open>
  \<open>monitorVideoTrack\<close> in a browser that has \<open>requestVideoFrameCallback\<close>, called when
  \<open>performance.now()\<close> is \<open>now\<close>: a new closure, its \<open>onFrame\<close> registered.
\<close>

definition monitorVideoTrack :: "real \<Rightarrow> player \<Rightarrow> player" where
  "monitorVideoTrack now p =
     p\<lparr> monitors := monitors p @
          [\<lparr> frameCount = 0, lastTime = now, lastPresented = 0, scheduled = True \<rparr>] \<rparr>"

text \<open>
  \<open>onFrame(now, metadata)\<close> of the closure \<open>m\<close>, with \<open>metadata.presentedFrames\<close> as
  \<open>presentedFrames\<close>: the closure's variables and the player afterwards.
\<close>

definition onFrame :: "real \<Rightarrow> real \<Rightarrow> frame_monitor \<Rightarrow> player \<Rightarrow> frame_monitor \<times> player" where
  "onFrame now presentedFrames m p =
     (let frameDelta = presentedFrames - lastPresented m;
          m1 = m\<lparr> frameCount := frameCount m + frameDelta \<rparr>;
          elapsed = now - lastTime m1;
          (m2, p2) =
            (if elapsed \<ge> 1000 then
               let fps = (frameCount m1 * 1000) / elapsed;
                   pa = p\<lparr> pm := (pm p)\<lparr> videoFrameCallbackFps := fps \<rparr> \<rparr>;
                   pb = (if fps > maxFpsAchieved (pm pa)
                         then pa\<lparr> pm := (pm pa)\<lparr> maxFpsAchieved := fps \<rparr> \<rparr> else pa)
               in (m1\<lparr> frameCount := 0, lastTime := now \<rparr>, pb)
             else (m1, p));
          m3 = m2\<lparr> lastPresented := presentedFrames \<rparr>;
          p3 = p2\<lparr> pm := (pm p2)\<lparr> lastPresentedFrames := presentedFrames \<rparr> \<rparr>
      in (m3\<lparr> scheduled := isPlaying (st p3) \<rparr>, p3))"

text \<open>The browser runs the registered \<open>onFrame\<close> of the \<open>k\<close>-th closure.\<close>

definition frameCallback :: "nat \<Rightarrow> real \<Rightarrow> real \<Rightarrow> player \<Rightarrow> player" where
  "frameCallback k now presentedFrames p =
     (if k < length (monitors p) \<and> scheduled (monitors p ! k)
      then (let (m, p1) = onFrame now presentedFrames (monitors p ! k) p
            in p1\<lparr> monitors := (monitors p1)[k := m] \<rparr>)
      else p)"

subsection \<open>\<open>parseStats\<close>\<close>

text \<open>The branch for an \<open>inbound-rtp\<close> video entry; \<open>now\<close> is \<open>Date.now()\<close>.\<close>

definition parseVideo :: "real \<Rightarrow> inbound_rtp \<Rightarrow> player \<Rightarrow> video_report \<times> player" where
  "parseVideo now s p =
     (let prevVideo = lastVideo p;
          keyFramesDelta = or0 (keyFramesDecoded s) - or0 (lastKeyFrameCount (st p));
          p1 = (if keyFramesDelta > 0 then
                  let pm1 = (if lastKeyFrameTime (pm p) > 0
                             then (pm p)\<lparr> keyFrameTimestamps :=
                                    push_shift 10 (keyFrameTimestamps (pm p))
                                      ((now - lastKeyFrameTime (pm p)) / 1000) \<rparr>
                             else pm p)
                  in p\<lparr> pm := pm1\<lparr> lastKeyFrameTime := now \<rparr>,
                        st := (st p)\<lparr> lastKeyFrameCount := keyFramesDecoded s \<rparr> \<rparr>
                else p);
          v = \<lparr> v_fps = or0 (framesPerSecond s),
                v_measuredFps = framesDecodedDelta prevVideo s / timeDiff prevVideo s,
                v_performanceFps = pm_fps (pm p1),
                v_videoFrameCallbackFps = videoFrameCallbackFps (pm p1),
                v_bytesReceived = or0 (bytesReceived s),
                v_bitrate = bitrate prevVideo s,
                v_packetsLost = or0 (packetsLost s),
                v_packetsReceived = or0 (packetsReceived s),
                v_jitter = or0 (jitter s) * 1000,
                v_framesDecoded = or0 (framesDecoded s),
                v_framesDropped = or0 (framesDropped s),
                v_frameDropRate = frameDropRate prevVideo s,
                v_keyFramesDecoded = or0 (keyFramesDecoded s),
                v_timestamp = timestamp s \<rparr>;
          currentFps = (if videoFrameCallbackFps (pm p1) \<noteq> 0
                        then videoFrameCallbackFps (pm p1) else v_fps v);
          p2 = (if currentFps > maxFpsAchieved (pm p1)
                then p1\<lparr> pm := (pm p1)\<lparr> maxFpsAchieved := currentFps \<rparr> \<rparr> else p1)
      in (v, p2\<lparr> lastVideo := Some s \<rparr>))"

text \<open>The branch for an \<open>inbound-rtp\<close> audio entry.\<close>

definition parseAudio :: "inbound_rtp \<Rightarrow> player \<Rightarrow> audio_report \<times> player" where
  "parseAudio s p =
     (let prevAudio = lastAudio p;
          a = \<lparr> a_bytesReceived = or0 (bytesReceived s),
                a_bitrate = bitrate prevAudio s,
                a_packetsLost = or0 (packetsLost s),
                a_packetsReceived = or0 (packetsReceived s),
                a_jitter = or0 (jitter s) * 1000,
                a_timestamp = timestamp s \<rparr>
      in (a, p\<lparr> lastAudio := Some s \<rparr>))"

text \<open>The body of \<open>stats.forEach\<close>.\<close>

fun parseEntry :: "real \<Rightarrow> report \<times> player \<Rightarrow> stat \<Rightarrow> report \<times> player" where
  "parseEntry now (r, p) (InboundVideo s) =
     (let (v, p1) = parseVideo now s p in (r\<lparr> r_video := Some v \<rparr>, p1))"
| "parseEntry now (r, p) (InboundAudio s) =
     (let (a, p1) = parseAudio s p in (r\<lparr> r_audio := Some a \<rparr>, p1))"
| "parseEntry now (r, p) (CandidatePair currentRoundTripTime) =
     (r\<lparr> r_rtt := Some (case currentRoundTripTime of
                          None \<Rightarrow> 0
                        | Some t \<Rightarrow> if t \<noteq> 0 then t * 1000 else 0) \<rparr>, p)"
| "parseEntry now (r, p) OtherStat = (r, p)"

definition parseStats :: "real \<Rightarrow> stat list \<Rightarrow> player \<Rightarrow> report \<times> player" where
  "parseStats now stats p = foldl (parseEntry now) (emptyReport, p) stats"

text \<open>
  \<open>updateDebugInfo\<close> once \<open>getStats()\<close> has resolved with \<open>stats\<close>: the report is
  parsed, rendered (not modelled: rendering writes only the debug panel) and recorded.
\<close>

definition updateDebugInfo :: "real \<Rightarrow> stat list \<Rightarrow> player \<Rightarrow> player" where
  "updateDebugInfo now stats p =
     (let (r, p1) = parseStats now stats p
      in p1\<lparr> hist := updateStatsHistory r (hist p1) \<rparr>)"

subsection \<open>Events\<close>

text \<open>
  What can run on the player after its construction: a transport state change, the
  settling of the pending \<open>play\<close>, a timeout callback, the application of a remote
  description, the arrival of a video track, a frame callback, a statistics sample.
\<close>

datatype event =
    ConnectionStateChange string
  | PlaySettled play_outcome
  | TimeoutFires timeout_action
  | RemoteDescription string
  | VideoTrack real
  | Frame nat real real
  | StatsSample real "stat list"

fun step :: "player \<Rightarrow> event \<Rightarrow> player" where
  "step p (ConnectionStateChange s) = onConnectionStateChange s p"
| "step p (PlaySettled out) = startPlaying_settled out p"
| "step p (TimeoutFires a) = onTimeout a p"
| "step p (RemoteDescription sdp) = setRemoteDescription sdp p"
| "step p (VideoTrack now) = monitorVideoTrack now p"
| "step p (Frame k now presentedFrames) = frameCallback k now presentedFrames p"
| "step p (StatsSample now stats) = updateDebugInfo now stats p"

definition run :: "player \<Rightarrow> event list \<Rightarrow> player" where
  "run p evs = foldl step p evs"

text \<open>A transport event that makes the listener call \<open>attemptReconnect\<close>.\<close>

definition is_disconnect :: "event \<Rightarrow> bool" where
  "is_disconnect e =
     (case e of ConnectionStateChange s \<Rightarrow> s = ''disconnected'' \<or> s = ''failed''
              | _ \<Rightarrow> False)"

text \<open>The successful completion of the connection establishment.\<close>

definition is_connected :: "event \<Rightarrow> bool" where
  "is_connected e = (case e of PlaySettled (Resolved now) \<Rightarrow> True | _ \<Rightarrow> False)"

text \<open>The number of reconnection timers set so far.\<close>

definition reconnect_timers :: "player \<Rightarrow> nat" where
  "reconnect_timers p = length (filter (\<lambda>t. fst t = CallStartPlaying) (timeouts p))"

text \<open>
  An \<open>inbound-rtp\<close> entry that reports its timestamp and \<open>bytesReceived\<close> and nothing else.
\<close>

definition bytes_at :: "real \<Rightarrow> real \<Rightarrow> inbound_rtp" where
  "bytes_at bytes t =
     \<lparr> timestamp = t, bytesReceived = Some bytes, packetsLost = None, packetsReceived = None,
       jitter = None, framesPerSecond = None, framesDecoded = None, framesDropped = None,
       keyFramesDecoded = None \<rparr>"

text \<open>
  A cumulative counter \<open>field\<close> is non-negative and has not decreased from the retained
  entry \<open>prev\<close> to the entry \<open>s\<close>, each read as the source reads it (\<open>|| 0\<close>).
\<close>

definition counter_ok :: "(inbound_rtp \<Rightarrow> real option) \<Rightarrow> inbound_rtp option \<Rightarrow> inbound_rtp \<Rightarrow> bool" where
  "counter_ok field prev s = (0 \<le> prev0 field prev \<and> prev0 field prev \<le> or0 (field s))"

text \<open>
  Shapes of SDP text: the rest of a line (no line terminator in it), a line ending
  (\<open>\n\<close> or \<open>\r\n\<close>), and a text before which a run of non-space characters stops (the
  end of the text or a white-space character).
\<close>

definition line_body :: "string \<Rightarrow> bool" where
  "line_body l = list_all is_dot l"

definition line_end :: "string \<Rightarrow> bool" where
  "line_end eol = (eol = [LF] \<or> eol = [CR, LF])"

definition token_end :: "string \<Rightarrow> bool" where
  "token_end rest = (case rest of [] \<Rightarrow> True | c # cs \<Rightarrow> is_space c)"

text \<open>A run of pushes into one series of the history.\<close>

definition pushes :: "'a list \<Rightarrow> 'a list \<Rightarrow> 'a list" where
  "pushes xs vs = foldl (push_shift STATS_HISTORY_SIZE) xs vs"

text \<open>No series of the history is longer than the capacity.\<close>

definition history_bounded :: "statsHistory \<Rightarrow> bool" where
  "history_bounded h =
     (length (h_fps h) \<le> STATS_HISTORY_SIZE \<and> length (h_bitrate h) \<le> STATS_HISTORY_SIZE
      \<and> length (h_packetLoss h) \<le> STATS_HISTORY_SIZE \<and> length (h_jitter h) \<le> STATS_HISTORY_SIZE
      \<and> length (h_rtt h) \<le> STATS_HISTORY_SIZE
      \<and> length (h_framesDecoded h) \<le> STATS_HISTORY_SIZE
      \<and> length (h_framesDropped h) \<le> STATS_HISTORY_SIZE
      \<and> length (h_keyFrameInterval h) \<le> STATS_HISTORY_SIZE
      \<and> length (h_videoFrameCallbackFps h) \<le> STATS_HISTORY_SIZE)"

text \<open>Does the statistics collection hold an \<open>inbound-rtp\<close> audio entry?\<close>

definition has_audio :: "stat list \<Rightarrow> bool" where
  "has_audio stats = (filter (\<lambda>e. case e of InboundAudio s \<Rightarrow> True | _ \<Rightarrow> False) stats \<noteq> [])"

text \<open>
  The value a report offers to each series that \<open>updateStatsHistory\<close> feeds, \<open>None\<close>
  when the report's field is \<open>undefined\<close>.
\<close>

definition sample_fps :: "report \<Rightarrow> real option" where
  "sample_fps r = map_option v_fps (r_video r)"

definition sample_videoFrameCallbackFps :: "report \<Rightarrow> real option" where
  "sample_videoFrameCallbackFps r = map_option v_videoFrameCallbackFps (r_video r)"

definition sample_bitrate :: "report \<Rightarrow> real option option" where
  "sample_bitrate r = map_option a_bitrate (r_audio r)"

definition sample_rtt :: "report \<Rightarrow> real option" where
  "sample_rtt r = r_rtt r"

definition sample_framesDecoded :: "report \<Rightarrow> real option" where
  "sample_framesDecoded r = map_option v_framesDecoded (r_video r)"

definition sample_framesDropped :: "report \<Rightarrow> real option" where
  "sample_framesDropped r = map_option v_framesDropped (r_video r)"

text \<open>The reports that the statistics samples of a run of events produce, in order.\<close>

fun reports :: "player \<Rightarrow> event list \<Rightarrow> report list" where
  "reports p [] = []"
| "reports p (e # evs) =
     (case e of StatsSample now stats \<Rightarrow> [fst (parseStats now stats p)] | _ \<Rightarrow> []) @
     reports (step p e) evs"

text \<open>
  Statistics samples that each hold one \<open>inbound-rtp\<close> entry, video or audio, given with
  the time of the sample.
\<close>

definition video_samples :: "(real \<times> inbound_rtp) list \<Rightarrow> event list" where
  "video_samples nss = map (\<lambda>(now, s). StatsSample now [InboundVideo s]) nss"

definition audio_samples :: "(real \<times> inbound_rtp) list \<Rightarrow> event list" where
  "audio_samples nss = map (\<lambda>(now, s). StatsSample now [InboundAudio s]) nss"

text \<open>
  The \<open>n\<close>-th of a series of video entries, one per second, that has decoded \<open>n\<close> frames
  at \<open>30 + n\<close> frames per second.
\<close>

definition decoded_at :: "nat \<Rightarrow> real \<times> inbound_rtp" where
  "decoded_at n =
     (real n, (bytes_at 0 (1000 * real n))\<lparr> framesPerSecond := Some (30 + real n),
                                            framesDecoded := Some (real n) \<rparr>)"

text \<open>The last \<open>inbound-rtp\<close> video entry of a statistics collection, and the last audio one.\<close>

definition last_video :: "stat list \<Rightarrow> inbound_rtp option" where
  "last_video stats =
     foldl (\<lambda>acc e. case e of InboundVideo s \<Rightarrow> Some s | _ \<Rightarrow> acc) None stats"

definition last_audio :: "stat list \<Rightarrow> inbound_rtp option" where
  "last_audio stats =
     foldl (\<lambda>acc e. case e of InboundAudio s \<Rightarrow> Some s | _ \<Rightarrow> acc) None stats"

text \<open>How many events of a list make the listener call \<open>attemptReconnect\<close>.\<close>

definition disconnects :: "event list \<Rightarrow> nat" where
  "disconnects evs = length (filter is_disconnect evs)"

section \<open>Frame properties of the operations\<close>

lemma setTimeout_fields [simp]:
  "st (setTimeout a ms p) = st p"
  "el (setTimeout a ms p) = el p"
  "pm (setTimeout a ms p) = pm p"
  "hist (setTimeout a ms p) = hist p"
  "timeouts (setTimeout a ms p) = timeouts p @ [(a, ms)]"
  by (simp_all add: setTimeout_def)

lemma showLoading_fields [simp]:
  "st (showLoading b p) = st p"
  "pm (showLoading b p) = pm p"
  "hist (showLoading b p) = hist p"
  "timeouts (showLoading b p) = timeouts p"
  "errorText (el (showLoading b p)) = errorText (el p)"
  "errorShown (el (showLoading b p)) = errorShown (el p)"
  by (simp_all add: showLoading_def)

lemma showError_fields [simp]:
  "st (showError m p) = st p"
  "pm (showError m p) = pm p"
  "hist (showError m p) = hist p"
  "timeouts (showError m p) = timeouts p @ [(HideError, 5000)]"
  "errorText (el (showError m p)) = m"
  "errorShown (el (showError m p)) = True"
  "statusText (el (showError m p)) = statusText (el p)"
  by (simp_all add: showError_def)

lemma updateConnectionStatus_fields [simp]:
  "reconnectAttempts (st (updateConnectionStatus q t p)) = reconnectAttempts (st p)"
  "isPlaying (st (updateConnectionStatus q t p)) = isPlaying (st p)"
  "streamStartTime (st (updateConnectionStatus q t p)) = streamStartTime (st p)"
  "connectionQuality (st (updateConnectionStatus q t p)) = q"
  "pm (updateConnectionStatus q t p) = pm p"
  "hist (updateConnectionStatus q t p) = hist p"
  "timeouts (updateConnectionStatus q t p) =
     timeouts p @ (if q = ''good'' then [(HideConnectionStatus, 3000)] else [])"
  "errorText (el (updateConnectionStatus q t p)) = errorText (el p)"
  "errorShown (el (updateConnectionStatus q t p)) = errorShown (el p)"
  "statusText (el (updateConnectionStatus q t p)) = t"
  by (simp_all add: updateConnectionStatus_def Let_def)

lemma startPlaying_begin_fields [simp]:
  "reconnectAttempts (st (startPlaying_begin p)) = reconnectAttempts (st p)"
  "pm (startPlaying_begin p) = pm p"
  "hist (startPlaying_begin p) = hist p"
  "timeouts (startPlaying_begin p) = timeouts p"
  "errorText (el (startPlaying_begin p)) = errorText (el p)"
  "errorShown (el (startPlaying_begin p)) = errorShown (el p)"
  by (simp_all add: startPlaying_begin_def)

lemma handlePlaybackError_fields [simp]:
  "reconnectAttempts (st (handlePlaybackError m p)) = reconnectAttempts (st p)"
  "pm (handlePlaybackError m p) = pm p"
  "hist (handlePlaybackError m p) = hist p"
  "timeouts (handlePlaybackError m p) = timeouts p @ [(HideError, 5000)]"
  "errorShown (el (handlePlaybackError m p)) = True"
  by (simp_all add: handlePlaybackError_def Let_def)

lemma startPlaying_resolved_fields [simp]:
  "reconnectAttempts (st (startPlaying_resolved now p)) = 0"
  "streamStartTime (st (startPlaying_resolved now p)) = Some now"
  "isPlaying (st (startPlaying_resolved now p)) = True"
  "pm (startPlaying_resolved now p) = pm p"
  "hist (startPlaying_resolved now p) = hist p"
  "timeouts (startPlaying_resolved now p) =
     timeouts p @ [(HideConnectionStatus, 3000), (HideToolbar, 3000), (LogCodecs, 2000)]"
  by (simp_all add: startPlaying_resolved_def Let_def)

lemma onTimeout_fields [simp]:
  "reconnectAttempts (st (onTimeout a p)) = reconnectAttempts (st p)"
  "pm (onTimeout a p) = pm p"
  "hist (onTimeout a p) = hist p"
  "timeouts (onTimeout a p) = timeouts p"
  by (simp_all add: onTimeout_def split: timeout_action.splits)

lemma setRemoteDescription_fields [simp]:
  "reconnectAttempts (st (setRemoteDescription sdp p)) = reconnectAttempts (st p)"
  "pm (setRemoteDescription sdp p) = pm p"
  "hist (setRemoteDescription sdp p) = hist p"
  "timeouts (setRemoteDescription sdp p) = timeouts p"
  "el (setRemoteDescription sdp p) = el p"
  by (simp_all add: setRemoteDescription_def)

lemma monitorVideoTrack_fields [simp]:
  "st (monitorVideoTrack now p) = st p"
  "pm (monitorVideoTrack now p) = pm p"
  "hist (monitorVideoTrack now p) = hist p"
  "timeouts (monitorVideoTrack now p) = timeouts p"
  "el (monitorVideoTrack now p) = el p"
  by (simp_all add: monitorVideoTrack_def)

lemma onFrame_fields [simp]:
  "st (snd (onFrame now n m p)) = st p"
  "hist (snd (onFrame now n m p)) = hist p"
  "timeouts (snd (onFrame now n m p)) = timeouts p"
  "el (snd (onFrame now n m p)) = el p"
  by (simp_all add: onFrame_def Let_def split: prod.splits)

lemma frameCallback_fields [simp]:
  "st (frameCallback k now n p) = st p"
  "hist (frameCallback k now n p) = hist p"
  "timeouts (frameCallback k now n p) = timeouts p"
  "el (frameCallback k now n p) = el p"
  by (simp_all add: frameCallback_def split: prod.splits)
     (metis onFrame_fields snd_conv)+

lemma parseVideo_fields [simp]:
  "reconnectAttempts (st (snd (parseVideo now s p))) = reconnectAttempts (st p)"
  "hist (snd (parseVideo now s p)) = hist p"
  "timeouts (snd (parseVideo now s p)) = timeouts p"
  "el (snd (parseVideo now s p)) = el p"
  by (simp_all add: parseVideo_def Let_def)

lemma parseAudio_fields [simp]:
  "st (snd (parseAudio s p)) = st p"
  "pm (snd (parseAudio s p)) = pm p"
  "hist (snd (parseAudio s p)) = hist p"
  "timeouts (snd (parseAudio s p)) = timeouts p"
  "el (snd (parseAudio s p)) = el p"
  by (simp_all add: parseAudio_def Let_def)

lemma parseEntry_fields [simp]:
  "reconnectAttempts (st (snd (parseEntry now rp e))) = reconnectAttempts (st (snd rp))"
  "hist (snd (parseEntry now rp e)) = hist (snd rp)"
  "timeouts (snd (parseEntry now rp e)) = timeouts (snd rp)"
  "el (snd (parseEntry now rp e)) = el (snd rp)"
  by (cases rp; cases e; simp add: split_beta)+

lemma foldl_parseEntry_fields:
  "reconnectAttempts (st (snd (foldl (parseEntry now) rp stats))) = reconnectAttempts (st (snd rp))
   \<and> hist (snd (foldl (parseEntry now) rp stats)) = hist (snd rp)
   \<and> timeouts (snd (foldl (parseEntry now) rp stats)) = timeouts (snd rp)
   \<and> el (snd (foldl (parseEntry now) rp stats)) = el (snd rp)"
  by (induction stats arbitrary: rp) simp_all

lemma parseStats_fields [simp]:
  "reconnectAttempts (st (snd (parseStats now stats p))) = reconnectAttempts (st p)"
  "hist (snd (parseStats now stats p)) = hist p"
  "timeouts (snd (parseStats now stats p)) = timeouts p"
  "el (snd (parseStats now stats p)) = el p"
  using foldl_parseEntry_fields [of now "(emptyReport, p)" stats]
  by (simp_all add: parseStats_def)

lemma updateDebugInfo_fields [simp]:
  "reconnectAttempts (st (updateDebugInfo now stats p)) = reconnectAttempts (st p)"
  "timeouts (updateDebugInfo now stats p) = timeouts p"
  "el (updateDebugInfo now stats p) = el p"
  by (simp_all add: updateDebugInfo_def split_beta)


section \<open>The reconnect policy\<close>

lemma string_of_nat_digit: "n < 10 \<Longrightarrow> string_of_nat n = [digit_char n]"
  by simp

lemma attemptReconnect_below:
  assumes "reconnectAttempts (st p) < MAX_RECONNECT_ATTEMPTS"
  shows "reconnectAttempts (st (attemptReconnect p)) = reconnectAttempts (st p) + 1"
    and "timeouts (attemptReconnect p) = timeouts p @ [(CallStartPlaying, 3000)]"
    and "errorText (el (attemptReconnect p)) = errorText (el p)"
    and "errorShown (el (attemptReconnect p)) = errorShown (el p)"
    and "connectionQuality (st (attemptReconnect p)) = ''connecting''"
    and "statusText (el (attemptReconnect p)) =
           ''Reconnecting... ('' @ string_of_nat (reconnectAttempts (st p) + 1) @ ''/'' @
             string_of_nat MAX_RECONNECT_ATTEMPTS @ '')''"
  using assms by (simp_all add: attemptReconnect_def Let_def RECONNECT_DELAY_def del: string_of_nat.simps)

lemma attemptReconnect_ceiling:
  assumes "MAX_RECONNECT_ATTEMPTS \<le> reconnectAttempts (st p)"
  shows "reconnectAttempts (st (attemptReconnect p)) = reconnectAttempts (st p)"
    and "timeouts (attemptReconnect p) = timeouts p @ [(HideError, 5000)]"
    and "errorText (el (attemptReconnect p)) = ''Connection lost. Please refresh the page.''"
    and "errorShown (el (attemptReconnect p))"
    and "connectionQuality (st (attemptReconnect p)) = connectionQuality (st p)"
    and "statusText (el (attemptReconnect p)) = statusText (el p)"
  using assms by (simp_all add: attemptReconnect_def)

lemma is_disconnect_cases:
  "is_disconnect e \<longleftrightarrow>
     e = ConnectionStateChange ''disconnected'' \<or> e = ConnectionStateChange ''failed''"
  by (cases e) (simp_all add: is_disconnect_def)

lemma step_disconnect_below:
  assumes "is_disconnect e" and "reconnectAttempts (st p) < MAX_RECONNECT_ATTEMPTS"
  shows "reconnectAttempts (st (step p e)) = reconnectAttempts (st p) + 1"
    and "timeouts (step p e) = timeouts p @ [(CallStartPlaying, 3000)]"
    and "errorText (el (step p e)) = errorText (el p)"
    and "errorShown (el (step p e)) = errorShown (el p)"
    and "connectionQuality (st (step p e)) = ''connecting''"
    and "statusText (el (step p e)) =
           ''Reconnecting... ('' @ string_of_nat (reconnectAttempts (st p) + 1) @ ''/'' @
             string_of_nat MAX_RECONNECT_ATTEMPTS @ '')''"
  using assms
  by (auto simp add: is_disconnect_cases onConnectionStateChange_def attemptReconnect_below
      simp del: string_of_nat.simps)

lemma step_disconnect_ceiling:
  assumes "is_disconnect e" and "MAX_RECONNECT_ATTEMPTS \<le> reconnectAttempts (st p)"
  shows "reconnectAttempts (st (step p e)) = reconnectAttempts (st p)"
    and "timeouts (step p e) = timeouts p @ [(HideError, 5000)]"
    and "errorText (el (step p e)) = ''Connection lost. Please refresh the page.''"
    and "errorShown (el (step p e))"
    and "connectionQuality (st (step p e)) = ''bad''"
  using assms
  by (auto simp add: is_disconnect_cases onConnectionStateChange_def attemptReconnect_ceiling)

lemma step_other:
  assumes "\<not> is_disconnect e" and "\<not> is_connected e"
  shows "reconnectAttempts (st (step p e)) = reconnectAttempts (st p)"
    and "reconnect_timers (step p e) = reconnect_timers p"
proof -
  show "reconnectAttempts (st (step p e)) = reconnectAttempts (st p)"
  proof (cases e)
    case (ConnectionStateChange s)
    with assms show ?thesis
      by (simp add: is_disconnect_def onConnectionStateChange_def)
  next
    case (PlaySettled out)
    with assms show ?thesis
      by (cases out) (simp_all add: is_connected_def startPlaying_settled_def)
  qed simp_all
  show "reconnect_timers (step p e) = reconnect_timers p"
  proof (cases e)
    case (ConnectionStateChange s)
    with assms show ?thesis
      by (simp add: is_disconnect_def onConnectionStateChange_def reconnect_timers_def)
  next
    case (PlaySettled out)
    with assms show ?thesis
      by (cases out) (simp_all add: is_connected_def startPlaying_settled_def reconnect_timers_def)
  qed (simp_all add: reconnect_timers_def)
qed

lemma step_counter:
  assumes "\<not> is_connected e" and "reconnectAttempts (st p) \<le> MAX_RECONNECT_ATTEMPTS"
  shows "reconnectAttempts (st (step p e)) =
           (if is_disconnect e then min (reconnectAttempts (st p) + 1) MAX_RECONNECT_ATTEMPTS
            else reconnectAttempts (st p))"
    and "reconnect_timers (step p e) =
           reconnect_timers p +
             (if is_disconnect e \<and> reconnectAttempts (st p) < MAX_RECONNECT_ATTEMPTS then 1 else 0)"
proof -
  show "reconnectAttempts (st (step p e)) =
           (if is_disconnect e then min (reconnectAttempts (st p) + 1) MAX_RECONNECT_ATTEMPTS
            else reconnectAttempts (st p))"
  proof (cases "is_disconnect e")
    case False
    with assms show ?thesis by (simp add: step_other)
  next
    case True
    show ?thesis
    proof (cases "reconnectAttempts (st p) < MAX_RECONNECT_ATTEMPTS")
      case True
      with \<open>is_disconnect e\<close> show ?thesis by (simp add: step_disconnect_below)
    next
      case False
      with \<open>is_disconnect e\<close> assms show ?thesis by (simp add: step_disconnect_ceiling)
    qed
  qed
  show "reconnect_timers (step p e) =
           reconnect_timers p +
             (if is_disconnect e \<and> reconnectAttempts (st p) < MAX_RECONNECT_ATTEMPTS then 1 else 0)"
  proof (cases "is_disconnect e")
    case False
    with assms show ?thesis by (simp add: step_other)
  next
    case True
    show ?thesis
    proof (cases "reconnectAttempts (st p) < MAX_RECONNECT_ATTEMPTS")
      case True
      with \<open>is_disconnect e\<close> show ?thesis
        by (simp add: step_disconnect_below reconnect_timers_def)
    next
      case False
      with \<open>is_disconnect e\<close> assms show ?thesis
        by (simp add: step_disconnect_ceiling reconnect_timers_def)
    qed
  qed
qed

lemma run_snoc: "run p (evs @ [e]) = step (run p evs) e"
  by (simp add: run_def)

lemma run_counter:
  assumes "\<forall>e \<in> set evs. \<not> is_connected e"
    and "reconnectAttempts (st p) \<le> MAX_RECONNECT_ATTEMPTS"
  shows "reconnectAttempts (st (run p evs)) =
           min (reconnectAttempts (st p) + disconnects evs) MAX_RECONNECT_ATTEMPTS
         \<and> reconnect_timers (run p evs) + reconnectAttempts (st p) =
           reconnect_timers p + min (reconnectAttempts (st p) + disconnects evs) MAX_RECONNECT_ATTEMPTS"
  using assms
proof (induction evs rule: rev_induct)
  case Nil
  then show ?case by (simp add: run_def disconnects_def)
next
  case (snoc e evs)
  let ?q = "run p evs"
  from snoc have ih:
    "reconnectAttempts (st ?q) = min (reconnectAttempts (st p) + disconnects evs) MAX_RECONNECT_ATTEMPTS"
    "reconnect_timers ?q + reconnectAttempts (st p) =
       reconnect_timers p + min (reconnectAttempts (st p) + disconnects evs) MAX_RECONNECT_ATTEMPTS"
    by simp_all
  from snoc.prems have e: "\<not> is_connected e" by simp
  have le: "reconnectAttempts (st ?q) \<le> MAX_RECONNECT_ATTEMPTS" using ih(1) by simp
  show ?case
    using step_counter [OF e le] ih
    by (auto simp add: run_snoc disconnects_def min_def)
qed


lemma string_of_nat_5: "string_of_nat 5 = ''5''"
  by (simp add: digit_char_def)

text \<open>
  C1, amended. Start with \<open>reconnectAttempts = 0\<close> and let any events run, none of them a
  successful completion of \<open>startPlaying\<close>; let \<open>N\<close> of them be transport events
  \<open>disconnected\<close> or \<open>failed\<close>. Then the counter is \<open>min N 5\<close> and \<open>min N 5\<close> reconnection
  timers have been set. The next \<open>disconnected\<close>/\<open>failed\<close> event is number \<open>N + 1\<close>: up to
  and including the fifth it sets a reconnection timer of 3000 ms, shows
  \<open>Reconnecting... (N+1/5)\<close> and leaves the error box alone; from the sixth on it sets no
  reconnection timer, shows the terminal error and leaves the counter at 5.
\<close>

theorem reconnect_counter_and_ceiling:
  assumes "reconnectAttempts (st p) = 0"
    and "\<forall>e \<in> set evs. \<not> is_connected e"
    and "is_disconnect e"
  shows "reconnectAttempts (st (run p evs)) = min (disconnects evs) 5
       \<and> reconnect_timers (run p evs) = reconnect_timers p + min (disconnects evs) 5
       \<and> (disconnects evs < 5 \<longrightarrow>
            timeouts (step (run p evs) e) = timeouts (run p evs) @ [(CallStartPlaying, 3000)]
          \<and> errorShown (el (step (run p evs) e)) = errorShown (el (run p evs))
          \<and> errorText (el (step (run p evs) e)) = errorText (el (run p evs))
          \<and> connectionQuality (st (step (run p evs) e)) = ''connecting''
          \<and> statusText (el (step (run p evs) e)) =
              ''Reconnecting... ('' @ string_of_nat (disconnects evs + 1) @ ''/5)'')
       \<and> (5 \<le> disconnects evs \<longrightarrow>
            timeouts (step (run p evs) e) = timeouts (run p evs) @ [(HideError, 5000)]
          \<and> errorShown (el (step (run p evs) e))
          \<and> errorText (el (step (run p evs) e)) = ''Connection lost. Please refresh the page.''
          \<and> connectionQuality (st (step (run p evs) e)) = ''bad''
          \<and> reconnectAttempts (st (step (run p evs) e)) = 5)"
proof -
  let ?q = "run p evs"
  have le: "reconnectAttempts (st p) \<le> MAX_RECONNECT_ATTEMPTS"
    using assms(1) by simp
  have counter: "reconnectAttempts (st ?q) = min (disconnects evs) 5"
    and timers: "reconnect_timers ?q = reconnect_timers p + min (disconnects evs) 5"
    using run_counter [OF assms(2) le] assms(1)
    by (simp_all add: MAX_RECONNECT_ATTEMPTS_def)
  have below: "disconnects evs < 5 \<Longrightarrow> reconnectAttempts (st ?q) < MAX_RECONNECT_ATTEMPTS"
    and below_eq: "disconnects evs < 5 \<Longrightarrow> reconnectAttempts (st ?q) = disconnects evs"
    and ceiling: "5 \<le> disconnects evs \<Longrightarrow> MAX_RECONNECT_ATTEMPTS \<le> reconnectAttempts (st ?q)"
    and ceiling_eq: "5 \<le> disconnects evs \<Longrightarrow> reconnectAttempts (st ?q) = 5"
    using counter by (simp_all add: MAX_RECONNECT_ATTEMPTS_def)
  have early: "timeouts (step ?q e) = timeouts ?q @ [(CallStartPlaying, 3000)]
          \<and> errorShown (el (step ?q e)) = errorShown (el ?q)
          \<and> errorText (el (step ?q e)) = errorText (el ?q)
          \<and> connectionQuality (st (step ?q e)) = ''connecting''
          \<and> statusText (el (step ?q e)) =
              ''Reconnecting... ('' @ string_of_nat (disconnects evs + 1) @ ''/5)''"
    if "disconnects evs < 5"
    using step_disconnect_below [OF assms(3) below [OF that]] below_eq [OF that]
    by (simp add: MAX_RECONNECT_ATTEMPTS_def string_of_nat_5 del: string_of_nat.simps)
  have late: "timeouts (step ?q e) = timeouts ?q @ [(HideError, 5000)]
          \<and> errorShown (el (step ?q e))
          \<and> errorText (el (step ?q e)) = ''Connection lost. Please refresh the page.''
          \<and> connectionQuality (st (step ?q e)) = ''bad''
          \<and> reconnectAttempts (st (step ?q e)) = 5"
    if "5 \<le> disconnects evs"
    using step_disconnect_ceiling [OF assms(3) ceiling [OF that]] ceiling_eq [OF that]
    by simp
  from counter timers early late show ?thesis by blast
qed

lemmas player_defs =
  run_def disconnects_def is_disconnect_def is_connected_def reconnect_timers_def
  initialPlayer_def initializeState_def initialElements_def
  onConnectionStateChange_def attemptReconnect_def updateConnectionStatus_def showError_def
  setTimeout_def MAX_RECONNECT_ATTEMPTS_def RECONNECT_DELAY_def digit_char_def Let_def

text \<open>
  C1 as stated fails on the fifth event: after five consecutive disconnections from the
  initial player no error is shown, the status reads \<open>Reconnecting... (5/5)\<close> and the
  fifth reconnection timer has been set.
\<close>

theorem fifth_disconnect_still_reconnects:
  "\<not> errorShown (el (run initialPlayer
       [ConnectionStateChange ''disconnected'', ConnectionStateChange ''failed'',
        ConnectionStateChange ''disconnected'', ConnectionStateChange ''disconnected'',
        ConnectionStateChange ''failed'']))
   \<and> timeouts (run initialPlayer
       [ConnectionStateChange ''disconnected'', ConnectionStateChange ''failed'',
        ConnectionStateChange ''disconnected'', ConnectionStateChange ''disconnected'',
        ConnectionStateChange ''failed'']) =
       [(CallStartPlaying, 3000), (CallStartPlaying, 3000), (CallStartPlaying, 3000),
        (CallStartPlaying, 3000), (CallStartPlaying, 3000)]
   \<and> statusText (el (run initialPlayer
       [ConnectionStateChange ''disconnected'', ConnectionStateChange ''failed'',
        ConnectionStateChange ''disconnected'', ConnectionStateChange ''disconnected'',
        ConnectionStateChange ''failed''])) = ''Reconnecting... (5/5)''
   \<and> reconnectAttempts (st (run initialPlayer
       [ConnectionStateChange ''disconnected'', ConnectionStateChange ''failed'',
        ConnectionStateChange ''disconnected'', ConnectionStateChange ''disconnected'',
        ConnectionStateChange ''failed''])) = 5"
  by (simp add: player_defs)


text \<open>
  The amended C1 at two runs from the initial player: after four disconnections the next
  one is attempt 5 of 5, after five the next one shows the terminal error.
\<close>

theorem reconnect_counter_and_ceiling_witness:
  "reconnectAttempts (st initialPlayer) = 0
   \<and> filter is_connected
        [ConnectionStateChange ''disconnected'', ConnectionStateChange ''connecting'',
         ConnectionStateChange ''failed'', TimeoutFires CallStartPlaying,
         ConnectionStateChange ''disconnected'', ConnectionStateChange ''disconnected''] = []
   \<and> disconnects
        [ConnectionStateChange ''disconnected'', ConnectionStateChange ''connecting'',
         ConnectionStateChange ''failed'', TimeoutFires CallStartPlaying,
         ConnectionStateChange ''disconnected'', ConnectionStateChange ''disconnected''] = 4
   \<and> statusText (el (step (run initialPlayer
        [ConnectionStateChange ''disconnected'', ConnectionStateChange ''connecting'',
         ConnectionStateChange ''failed'', TimeoutFires CallStartPlaying,
         ConnectionStateChange ''disconnected'', ConnectionStateChange ''disconnected''])
        (ConnectionStateChange ''failed''))) = ''Reconnecting... (5/5)''
   \<and> disconnects
        [ConnectionStateChange ''disconnected'', ConnectionStateChange ''failed'',
         ConnectionStateChange ''disconnected'', ConnectionStateChange ''disconnected'',
         ConnectionStateChange ''failed''] = 5
   \<and> errorText (el (step (run initialPlayer
        [ConnectionStateChange ''disconnected'', ConnectionStateChange ''failed'',
         ConnectionStateChange ''disconnected'', ConnectionStateChange ''disconnected'',
         ConnectionStateChange ''failed''])
        (ConnectionStateChange ''disconnected''))) = ''Connection lost. Please refresh the page.''
   \<and> reconnect_timers (run initialPlayer
        [ConnectionStateChange ''disconnected'', ConnectionStateChange ''failed'',
         ConnectionStateChange ''disconnected'', ConnectionStateChange ''disconnected'',
         ConnectionStateChange ''failed'']) = 5"
proof -
  let ?four = "[ConnectionStateChange ''disconnected'', ConnectionStateChange ''connecting'',
         ConnectionStateChange ''failed'', TimeoutFires CallStartPlaying,
         ConnectionStateChange ''disconnected'', ConnectionStateChange ''disconnected'']"
  let ?five = "[ConnectionStateChange ''disconnected'', ConnectionStateChange ''failed'',
         ConnectionStateChange ''disconnected'', ConnectionStateChange ''disconnected'',
         ConnectionStateChange ''failed'']"
  have init: "reconnectAttempts (st initialPlayer) = 0"
    by (simp add: initialPlayer_def initializeState_def)
  have none4: "\<forall>e \<in> set ?four. \<not> is_connected e"
    and none5: "\<forall>e \<in> set ?five. \<not> is_connected e"
    by (simp_all add: is_connected_def)
  have d4: "disconnects ?four = 4" and d5: "disconnects ?five = 5"
    by (simp_all add: disconnects_def is_disconnect_def)
  have e1: "is_disconnect (ConnectionStateChange ''failed'')"
    and e2: "is_disconnect (ConnectionStateChange ''disconnected'')"
    by (simp_all add: is_disconnect_def)
  have t0: "reconnect_timers initialPlayer = 0"
    by (simp add: reconnect_timers_def initialPlayer_def)
  show ?thesis
    using reconnect_counter_and_ceiling [OF init none4 e1]
      reconnect_counter_and_ceiling [OF init none5 e2] init d4 d5 t0
    by (simp add: is_connected_def digit_char_def)
qed

section \<open>Connected\<close>

text \<open>
  C6. The successful completion of the connection establishment (the statements after
  \<open>await this.sdk.play\<close>) sets \<open>reconnectAttempts\<close> to 0 and \<open>streamStartTime\<close> to the
  current time, whatever the player was before, and shows \<open>Connected\<close>.
\<close>

theorem connected_resets_counter:
  "reconnectAttempts (st (step p (PlaySettled (Resolved now)))) = 0
   \<and> streamStartTime (st (step p (PlaySettled (Resolved now)))) = Some now
   \<and> reconnectAttempts (st (startPlaying (Resolved now) p)) = 0
   \<and> streamStartTime (st (startPlaying (Resolved now) p)) = Some now
   \<and> connectionQuality (st (startPlaying (Resolved now) p)) = ''good''
   \<and> statusText (el (startPlaying (Resolved now) p)) = ''Connected''"
  by (simp add: startPlaying_def startPlaying_settled_def)
     (simp add: startPlaying_resolved_def Let_def)

text \<open>C6 after two reconnection attempts: the counter goes from 2 to 0.\<close>

theorem connected_resets_counter_witness:
  "reconnectAttempts (st (run initialPlayer
      [ConnectionStateChange ''failed'', ConnectionStateChange ''disconnected''])) = 2
   \<and> reconnectAttempts (st (step (run initialPlayer
      [ConnectionStateChange ''failed'', ConnectionStateChange ''disconnected''])
      (PlaySettled (Resolved 1700)))) = 0
   \<and> streamStartTime (st (step (run initialPlayer
      [ConnectionStateChange ''failed'', ConnectionStateChange ''disconnected''])
      (PlaySettled (Resolved 1700)))) = Some 1700"
  using connected_resets_counter [of "run initialPlayer
      [ConnectionStateChange ''failed'', ConnectionStateChange ''disconnected'']" 1700]
  by (simp add: player_defs)

section \<open>Establishment failure\<close>




section \<open>Rates\<close>

lemma toFixed2_bounds:
  assumes "0 \<le> x" and "x \<le> 100"
  shows "0 \<le> toFixed2 x \<and> toFixed2 x \<le> 100"
proof -
  have "\<lfloor>x * 100 + 1 / 2\<rfloor> \<le> \<lfloor>(10000::real) + 1 / 2\<rfloor>"
    using assms by (intro floor_mono) simp
  also have "\<lfloor>(10000::real) + 1 / 2\<rfloor> = 10000" by simp
  finally have up: "\<lfloor>x * 100 + 1 / 2\<rfloor> \<le> 10000" .
  have "0 \<le> x * 100 + 1 / 2" using assms by simp
  then have lo: "0 \<le> \<lfloor>x * 100 + 1 / 2\<rfloor>" by simp
  have "real_of_int \<lfloor>x * 100 + 1 / 2\<rfloor> \<le> 10000" using up by linarith
  with lo assms show ?thesis by (simp add: toFixed2_def)
qed

lemma ratio_bounds:
  fixes a b :: real
  assumes "0 \<le> a" and "0 \<le> b" and "0 < a + b"
  shows "0 \<le> a / (a + b) * 100 \<and> a / (a + b) * 100 \<le> 100"
proof -
  have "a * 100 \<le> 100 * (a + b)" using assms by simp
  then have "a * 100 / (a + b) \<le> 100" using assms(3) by (simp add: pos_divide_le_eq)
  moreover have "0 \<le> a * 100 / (a + b)" using assms by simp
  ultimately show ?thesis by simp
qed

lemma frameDropRate_bounds:
  assumes "counter_ok framesDecoded prev s" and "counter_ok framesDropped prev s"
  shows "0 \<le> frameDropRate prev s \<and> frameDropRate prev s \<le> 100"
proof -
  have a: "0 \<le> framesDroppedDelta prev s" and b: "0 \<le> framesDecodedDelta prev s"
    using assms by (simp_all add: counter_ok_def framesDroppedDelta_def framesDecodedDelta_def)
  show ?thesis
  proof (cases "0 < framesDecodedDelta prev s + framesDroppedDelta prev s")
    case True
    then have "0 < framesDroppedDelta prev s + framesDecodedDelta prev s" by simp
    from ratio_bounds [OF a b this] True show ?thesis
      by (simp add: frameDropRate_def Let_def add.commute)
  next
    case False
    then show ?thesis by (simp add: frameDropRate_def Let_def)
  qed
qed

lemma frameDropRate_formula:
  assumes "counter_ok framesDecoded prev s" and "counter_ok framesDropped prev s"
  shows "frameDropRate prev s =
           (if framesDecodedDelta prev s + framesDroppedDelta prev s = 0 then 0
            else framesDroppedDelta prev s /
                   (framesDecodedDelta prev s + framesDroppedDelta prev s) * 100)"
proof -
  have "0 \<le> framesDroppedDelta prev s" and "0 \<le> framesDecodedDelta prev s"
    using assms by (simp_all add: counter_ok_def framesDroppedDelta_def framesDecodedDelta_def)
  then show ?thesis by (auto simp add: frameDropRate_def Let_def)
qed

lemma packetLossRatio_bounds:
  assumes "0 \<le> lost" and "0 \<le> received"
  shows "0 \<le> packetLossRatio lost received \<and> packetLossRatio lost received \<le> 100"
proof (cases "0 < received")
  case True
  with assms have "0 < lost + received" by simp
  from ratio_bounds [OF assms this] True show ?thesis by (simp add: packetLossRatio_def)
next
  case False
  then show ?thesis by (simp add: packetLossRatio_def)
qed

lemma parseVideo_report:
  "v_frameDropRate (fst (parseVideo now s p)) = frameDropRate (lastVideo p) s"
  "v_packetsLost (fst (parseVideo now s p)) = or0 (packetsLost s)"
  "v_packetsReceived (fst (parseVideo now s p)) = or0 (packetsReceived s)"
  "v_bitrate (fst (parseVideo now s p)) = bitrate (lastVideo p) s"
  "v_fps (fst (parseVideo now s p)) = or0 (framesPerSecond s)"
  "lastVideo (snd (parseVideo now s p)) = Some s"
  by (simp_all add: parseVideo_def Let_def)

lemma parseAudio_report:
  "a_packetsLost (fst (parseAudio s p)) = or0 (packetsLost s)"
  "a_packetsReceived (fst (parseAudio s p)) = or0 (packetsReceived s)"
  "a_bitrate (fst (parseAudio s p)) = bitrate (lastAudio p) s"
  "lastAudio (snd (parseAudio s p)) = Some s"
  by (simp_all add: parseAudio_def Let_def)

lemma counter_ok_nonneg: "counter_ok field prev s \<Longrightarrow> 0 \<le> or0 (field s)"
  by (simp add: counter_ok_def)

text \<open>
  C3. Let the retained video entry and the current one have non-negative,
  non-decreasing \<open>framesDecoded\<close>, \<open>framesDropped\<close>, \<open>packetsLost\<close> and \<open>packetsReceived\<close>
  (each read with \<open>|| 0\<close>). Then the frame-drop rate of the report is
  \<open>droppedDelta / (decodedDelta + droppedDelta) * 100\<close>, or 0 when that denominator is 0,
  and lies in [0, 100]; and the packet-loss rate that \<open>renderStatsTab\<close> computes from the
  report is \<open>lost / (lost + received) * 100\<close> over the cumulative counters (rounded by
  \<open>toFixed(2)\<close>), or 0 when no packet was received, and lies in [0, 100], rounded or not.
\<close>

theorem rates_within_bounds:
  assumes "counter_ok framesDecoded (lastVideo p) s"
    and "counter_ok framesDropped (lastVideo p) s"
    and "counter_ok packetsLost (lastVideo p) s"
    and "counter_ok packetsReceived (lastVideo p) s"
  shows "0 \<le> v_frameDropRate (fst (parseVideo now s p))
       \<and> v_frameDropRate (fst (parseVideo now s p)) \<le> 100
       \<and> v_frameDropRate (fst (parseVideo now s p)) =
           (if framesDecodedDelta (lastVideo p) s + framesDroppedDelta (lastVideo p) s = 0 then 0
            else framesDroppedDelta (lastVideo p) s /
                   (framesDecodedDelta (lastVideo p) s + framesDroppedDelta (lastVideo p) s) * 100)
       \<and> 0 \<le> packetLossRate (fst (parseVideo now s p))
       \<and> packetLossRate (fst (parseVideo now s p)) \<le> 100
       \<and> packetLossRate (fst (parseVideo now s p)) =
           (if or0 (packetsReceived s) = 0 then 0
            else toFixed2 (or0 (packetsLost s) / (or0 (packetsLost s) + or0 (packetsReceived s)) * 100))
       \<and> 0 \<le> or0 (packetsLost s) / (or0 (packetsLost s) + or0 (packetsReceived s)) * 100
       \<and> or0 (packetsLost s) / (or0 (packetsLost s) + or0 (packetsReceived s)) * 100 \<le> 100"
proof -
  let ?v = "fst (parseVideo now s p)"
  have lost: "0 \<le> or0 (packetsLost s)" and recv: "0 \<le> or0 (packetsReceived s)"
    using assms(3,4) by (simp_all add: counter_ok_nonneg)
  have drop: "0 \<le> v_frameDropRate ?v \<and> v_frameDropRate ?v \<le> 100"
    using frameDropRate_bounds [OF assms(1,2)] by (simp add: parseVideo_report)
  have formula: "v_frameDropRate ?v =
           (if framesDecodedDelta (lastVideo p) s + framesDroppedDelta (lastVideo p) s = 0 then 0
            else framesDroppedDelta (lastVideo p) s /
                   (framesDecodedDelta (lastVideo p) s + framesDroppedDelta (lastVideo p) s) * 100)"
    using frameDropRate_formula [OF assms(1,2)] by (simp add: parseVideo_report)
  have ratio: "0 \<le> packetLossRatio (or0 (packetsLost s)) (or0 (packetsReceived s))
             \<and> packetLossRatio (or0 (packetsLost s)) (or0 (packetsReceived s)) \<le> 100"
    by (rule packetLossRatio_bounds [OF lost recv])
  have fixed: "0 \<le> toFixed2 (packetLossRatio (or0 (packetsLost s)) (or0 (packetsReceived s)))
             \<and> toFixed2 (packetLossRatio (or0 (packetsLost s)) (or0 (packetsReceived s))) \<le> 100"
    using ratio by (simp add: toFixed2_bounds)
  have loss: "0 \<le> packetLossRate ?v \<and> packetLossRate ?v \<le> 100"
    using fixed by (simp add: packetLossRate_def parseVideo_report)
  have loss_eq: "packetLossRate ?v =
           (if or0 (packetsReceived s) = 0 then 0
            else toFixed2 (or0 (packetsLost s) / (or0 (packetsLost s) + or0 (packetsReceived s)) * 100))"
    using recv by (auto simp add: packetLossRate_def packetLossRatio_def parseVideo_report)
  have raw: "0 \<le> or0 (packetsLost s) / (or0 (packetsLost s) + or0 (packetsReceived s)) * 100
       \<and> or0 (packetsLost s) / (or0 (packetsLost s) + or0 (packetsReceived s)) * 100 \<le> 100"
  proof (cases "0 < or0 (packetsLost s) + or0 (packetsReceived s)")
    case True
    from ratio_bounds [OF lost recv True] show ?thesis .
  next
    case False
    with lost recv have "or0 (packetsLost s) + or0 (packetsReceived s) = 0" by simp
    then show ?thesis by simp
  qed
  from drop formula loss loss_eq raw show ?thesis by blast
qed


lemmas stats_defs =
  or0_def prev0_def timeDiff_def bitrate_def framesDecodedDelta_def framesDroppedDelta_def
  frameDropRate_def toFixed2_def packetLossRatio_def packetLossRate_def counter_ok_def
  bytes_at_def parseVideo_def parseAudio_def Let_def

text \<open>
  C3 on two snapshots: 27 more frames decoded and 3 more dropped give a drop rate of 10,
  1 packet lost out of 100 gives a loss rate of 1.
\<close>

theorem rates_within_bounds_witness:
  "counter_ok framesDecoded
     (Some ((bytes_at 1000 0)\<lparr> packetsLost := Some 1, packetsReceived := Some 50,
              framesDecoded := Some 100, framesDropped := Some 5 \<rparr>))
     ((bytes_at 2000 1000)\<lparr> packetsLost := Some 1, packetsReceived := Some 99,
              framesDecoded := Some 127, framesDropped := Some 8 \<rparr>)
   \<and> counter_ok framesDropped
     (Some ((bytes_at 1000 0)\<lparr> packetsLost := Some 1, packetsReceived := Some 50,
              framesDecoded := Some 100, framesDropped := Some 5 \<rparr>))
     ((bytes_at 2000 1000)\<lparr> packetsLost := Some 1, packetsReceived := Some 99,
              framesDecoded := Some 127, framesDropped := Some 8 \<rparr>)
   \<and> counter_ok packetsLost
     (Some ((bytes_at 1000 0)\<lparr> packetsLost := Some 1, packetsReceived := Some 50,
              framesDecoded := Some 100, framesDropped := Some 5 \<rparr>))
     ((bytes_at 2000 1000)\<lparr> packetsLost := Some 1, packetsReceived := Some 99,
              framesDecoded := Some 127, framesDropped := Some 8 \<rparr>)
   \<and> counter_ok packetsReceived
     (Some ((bytes_at 1000 0)\<lparr> packetsLost := Some 1, packetsReceived := Some 50,
              framesDecoded := Some 100, framesDropped := Some 5 \<rparr>))
     ((bytes_at 2000 1000)\<lparr> packetsLost := Some 1, packetsReceived := Some 99,
              framesDecoded := Some 127, framesDropped := Some 8 \<rparr>)
   \<and> v_frameDropRate (fst (parseVideo 5
        ((bytes_at 2000 1000)\<lparr> packetsLost := Some 1, packetsReceived := Some 99,
              framesDecoded := Some 127, framesDropped := Some 8 \<rparr>)
        (initialPlayer\<lparr> lastVideo :=
           Some ((bytes_at 1000 0)\<lparr> packetsLost := Some 1, packetsReceived := Some 50,
              framesDecoded := Some 100, framesDropped := Some 5 \<rparr>) \<rparr>))) = 10
   \<and> packetLossRate (fst (parseVideo 5
        ((bytes_at 2000 1000)\<lparr> packetsLost := Some 1, packetsReceived := Some 99,
              framesDecoded := Some 127, framesDropped := Some 8 \<rparr>)
        (initialPlayer\<lparr> lastVideo :=
           Some ((bytes_at 1000 0)\<lparr> packetsLost := Some 1, packetsReceived := Some 50,
              framesDecoded := Some 100, framesDropped := Some 5 \<rparr>) \<rparr>))) = 1"
  using rates_within_bounds [of
      "initialPlayer\<lparr> lastVideo :=
           Some ((bytes_at 1000 0)\<lparr> packetsLost := Some 1, packetsReceived := Some 50,
              framesDecoded := Some 100, framesDropped := Some 5 \<rparr>) \<rparr>"
      "(bytes_at 2000 1000)\<lparr> packetsLost := Some 1, packetsReceived := Some 99,
              framesDecoded := Some 127, framesDropped := Some 8 \<rparr>" 5]
  by (simp add: stats_defs)

section \<open>History buffers\<close>

lemma push_shift_length:
  "length xs \<le> n \<Longrightarrow> length (push_shift n xs v) \<le> n"
  by (simp add: push_shift_def)

lemma push_shift_eq:
  "length xs \<le> n \<Longrightarrow> push_shift n xs v = drop (length xs + 1 - n) (xs @ [v])"
  by (cases xs) (auto simp add: push_shift_def drop_Cons' le_Suc_eq)

lemma push_shift_drop:
  "push_shift n (drop (length zs - n) zs) v = drop (length (zs @ [v]) - n) (zs @ [v])"
proof -
  let ?k = "length zs - n"
  have len: "length (drop ?k zs) \<le> n" by simp
  have app: "drop ?k zs @ [v] = drop ?k (zs @ [v])" by simp
  have ar: "length (drop ?k zs) + 1 - n + ?k = length (zs @ [v]) - n" by simp
  have "push_shift n (drop ?k zs) v = drop (length (drop ?k zs) + 1 - n) (drop ?k zs @ [v])"
    by (rule push_shift_eq [OF len])
  also have "\<dots> = drop (length (drop ?k zs) + 1 - n + ?k) (zs @ [v])"
    unfolding app by (simp only: drop_drop)
  finally show ?thesis unfolding ar .
qed

lemma foldl_push_shift:
  "length xs \<le> n \<Longrightarrow>
     foldl (push_shift n) xs vs = drop (length (xs @ vs) - n) (xs @ vs)"
proof (induction vs rule: rev_induct)
  case Nil
  then show ?case by simp
next
  case (snoc v vs)
  then have ih: "foldl (push_shift n) xs vs = drop (length (xs @ vs) - n) (xs @ vs)"
    by simp
  have "foldl (push_shift n) xs (vs @ [v]) = push_shift n (foldl (push_shift n) xs vs) v"
    by simp
  also have "\<dots> = drop (length ((xs @ vs) @ [v]) - n) ((xs @ vs) @ [v])"
    unfolding ih by (rule push_shift_drop)
  finally show ?case by simp
qed

lemma updateStatsHistory_series:
  "h_fps (updateStatsHistory r h) =
     (case r_video r of None \<Rightarrow> h_fps h
      | Some v \<Rightarrow> push_shift STATS_HISTORY_SIZE (h_fps h) (v_fps v))"
  "h_videoFrameCallbackFps (updateStatsHistory r h) =
     (case r_video r of None \<Rightarrow> h_videoFrameCallbackFps h
      | Some v \<Rightarrow> push_shift STATS_HISTORY_SIZE (h_videoFrameCallbackFps h) (v_videoFrameCallbackFps v))"
  "h_bitrate (updateStatsHistory r h) =
     (case r_audio r of None \<Rightarrow> h_bitrate h
      | Some a \<Rightarrow> push_shift STATS_HISTORY_SIZE (h_bitrate h) (a_bitrate a))"
  "h_rtt (updateStatsHistory r h) =
     (case r_rtt r of None \<Rightarrow> h_rtt h
      | Some t \<Rightarrow> push_shift STATS_HISTORY_SIZE (h_rtt h) t)"
  "h_framesDecoded (updateStatsHistory r h) =
     (case r_video r of None \<Rightarrow> h_framesDecoded h
      | Some v \<Rightarrow> push_shift STATS_HISTORY_SIZE (h_framesDecoded h) (v_framesDecoded v))"
  "h_framesDropped (updateStatsHistory r h) =
     (case r_video r of None \<Rightarrow> h_framesDropped h
      | Some v \<Rightarrow> push_shift STATS_HISTORY_SIZE (h_framesDropped h) (v_framesDropped v))"
  "h_packetLoss (updateStatsHistory r h) = h_packetLoss h"
  "h_jitter (updateStatsHistory r h) = h_jitter h"
  "h_keyFrameInterval (updateStatsHistory r h) = h_keyFrameInterval h"
  by (simp_all add: updateStatsHistory_def Let_def split: option.splits)


lemma updateStatsHistory_bounded:
  assumes "history_bounded h"
  shows "history_bounded (updateStatsHistory r h)"
  using assms
  by (simp add: history_bounded_def updateStatsHistory_series push_shift_length
      split: option.splits)

lemma attemptReconnect_rest [simp]:
  "pm (attemptReconnect p) = pm p"
  "hist (attemptReconnect p) = hist p"
  by (simp_all add: attemptReconnect_def Let_def)

lemma onConnectionStateChange_rest [simp]:
  "pm (onConnectionStateChange s p) = pm p"
  "hist (onConnectionStateChange s p) = hist p"
  by (simp_all add: onConnectionStateChange_def)

lemma startPlaying_settled_rest [simp]:
  "pm (startPlaying_settled out p) = pm p"
  "hist (startPlaying_settled out p) = hist p"
  by (cases out; simp add: startPlaying_settled_def)+

lemma updateDebugInfo_hist:
  "hist (updateDebugInfo now stats p) =
     updateStatsHistory (fst (parseStats now stats p)) (hist p)"
  by (simp add: updateDebugInfo_def split_beta)

lemma step_hist:
  "hist (step p e) =
     (case e of
        StatsSample now stats \<Rightarrow> updateStatsHistory (fst (parseStats now stats p)) (hist p)
      | _ \<Rightarrow> hist p)"
  by (cases e) (simp_all add: updateDebugInfo_hist)

lemma step_bounded:
  "history_bounded (hist p) \<Longrightarrow> history_bounded (hist (step p e))"
  by (cases e) (simp_all add: updateDebugInfo_hist updateStatsHistory_bounded)

lemma run_bounded:
  "history_bounded (hist p) \<Longrightarrow> history_bounded (hist (run p evs))"
  by (induction evs rule: rev_induct) (simp_all add: run_def step_bounded)

lemma initial_bounded: "history_bounded (hist initialPlayer)"
  by (simp add: history_bounded_def initialPlayer_def initialStatsHistory_def)

lemma pushes_Nil: "pushes xs [] = xs"
  by (simp add: pushes_def)

lemma pushes_Cons: "pushes xs (v # vs) = pushes (push_shift STATS_HISTORY_SIZE xs v) vs"
  by (simp add: pushes_def)

lemma pushes_append: "pushes xs (us @ vs) = pushes (pushes xs us) vs"
  by (simp add: pushes_def)

lemma pushes_drop:
  "length xs \<le> 60 \<Longrightarrow> pushes xs vs = drop (length (xs @ vs) - 60) (xs @ vs)"
  using foldl_push_shift [of xs 60 vs] by (simp add: pushes_def STATS_HISTORY_SIZE_def)

lemma map_filter_append:
  "List.map_filter f (xs @ ys) = List.map_filter f xs @ List.map_filter f ys"
  by (simp add: List.map_filter_def)

lemma run_Cons: "run p (e # evs) = run (step p e) evs"
  by (simp add: run_def)

text \<open>
  A series whose selector \<open>hX\<close> is fed by \<open>updateStatsHistory\<close> from the sample \<open>sX\<close> of
  each report holds, after a run of events, the pushes of the samples of its reports.
\<close>

lemma run_series:
  assumes fed: "\<And>r h. hX (updateStatsHistory r h) =
      (case sX r of None \<Rightarrow> hX h | Some v \<Rightarrow> push_shift STATS_HISTORY_SIZE (hX h) v)"
  shows "hX (hist (run p evs)) = pushes (hX (hist p)) (List.map_filter sX (reports p evs))"
proof (induction evs arbitrary: p)
  case Nil
  then show ?case by (simp add: run_def pushes_Nil map_filter_simps)
next
  case (Cons e evs)
  have here: "hX (hist (step p e)) =
      pushes (hX (hist p))
        (List.map_filter sX (case e of StatsSample now stats \<Rightarrow> [fst (parseStats now stats p)]
                                     | _ \<Rightarrow> []))"
    by (cases e)
       (simp_all add: updateDebugInfo_hist fed pushes_Nil pushes_Cons map_filter_simps
          split: option.splits)
  have "hX (hist (run p (e # evs))) =
          pushes (hX (hist (step p e))) (List.map_filter sX (reports (step p e) evs))"
    by (simp add: run_Cons Cons.IH)
  also have "\<dots> = pushes (hX (hist p)) (List.map_filter sX (reports p (e # evs)))"
    unfolding here by (simp add: pushes_append map_filter_append)
  finally show ?case .
qed

lemma parseStats_single_video:
  "r_video (fst (parseStats now [InboundVideo s] p)) = Some (fst (parseVideo now s p))"
  "r_audio (fst (parseStats now [InboundVideo s] p)) = None"
  "snd (parseStats now [InboundVideo s] p) = snd (parseVideo now s p)"
  by (simp_all add: parseStats_def emptyReport_def split_beta)

lemma parseStats_single_audio:
  "r_audio (fst (parseStats now [InboundAudio s] p)) = Some (fst (parseAudio s p))"
  "r_video (fst (parseStats now [InboundAudio s] p)) = None"
  "snd (parseStats now [InboundAudio s] p) = snd (parseAudio s p)"
  by (simp_all add: parseStats_def emptyReport_def split_beta)

lemma parseVideo_counts:
  "v_framesDecoded (fst (parseVideo now s p)) = or0 (framesDecoded s)"
  "v_framesDropped (fst (parseVideo now s p)) = or0 (framesDropped s)"
  by (simp_all add: parseVideo_def Let_def)

lemma video_samples_decoded:
  "List.map_filter sample_framesDecoded (reports p (video_samples nss)) =
     map (\<lambda>(now, s). or0 (framesDecoded s)) nss"
  by (induction nss arbitrary: p)
     (simp_all add: video_samples_def map_filter_simps sample_framesDecoded_def
        parseStats_single_video parseVideo_counts split_beta)

lemma video_samples_fps:
  "List.map_filter sample_fps (reports p (video_samples nss)) =
     map (\<lambda>(now, s). or0 (framesPerSecond s)) nss"
  by (induction nss arbitrary: p)
     (simp_all add: video_samples_def map_filter_simps sample_fps_def
        parseStats_single_video parseVideo_report split_beta)


text \<open>
  C4. A series of at most 60 values still has at most 60 after any run of pushes; a run
  of pushes into an empty series leaves the last 60 values pushed, oldest first, so after
  100 pushes exactly the last 60. On the player: after any events, each of the six
  series that \<open>updateStatsHistory\<close> feeds holds what the pushes of the samples of the
  reports parsed during those events, in their order, leave of it, and no series of
  \<open>statsHistory\<close> is longer than 60. In particular, after any number of statistics
  samples with one video entry each on the initial player, the \<open>framesDecoded\<close> and the
  \<open>fps\<close> series hold the values of the last 60 samples, oldest first; after 100 samples,
  those of samples 41 to 100.
\<close>

theorem history_capacity:
  "(length xs \<le> 60 \<longrightarrow> length (pushes xs vs) \<le> 60)
   \<and> pushes [] vs = drop (length vs - 60) vs
   \<and> (length vs = 100 \<longrightarrow> pushes [] vs = drop 40 vs)
   \<and> (history_bounded (hist p) \<longrightarrow> history_bounded (hist (run p evs)))
   \<and> history_bounded (hist (run initialPlayer evs))
   \<and> h_fps (hist (run p evs)) =
       pushes (h_fps (hist p)) (List.map_filter sample_fps (reports p evs))
   \<and> h_videoFrameCallbackFps (hist (run p evs)) =
       pushes (h_videoFrameCallbackFps (hist p))
         (List.map_filter sample_videoFrameCallbackFps (reports p evs))
   \<and> h_bitrate (hist (run p evs)) =
       pushes (h_bitrate (hist p)) (List.map_filter sample_bitrate (reports p evs))
   \<and> h_rtt (hist (run p evs)) =
       pushes (h_rtt (hist p)) (List.map_filter sample_rtt (reports p evs))
   \<and> h_framesDecoded (hist (run p evs)) =
       pushes (h_framesDecoded (hist p)) (List.map_filter sample_framesDecoded (reports p evs))
   \<and> h_framesDropped (hist (run p evs)) =
       pushes (h_framesDropped (hist p)) (List.map_filter sample_framesDropped (reports p evs))
   \<and> h_framesDecoded (hist (run initialPlayer (video_samples nss))) =
       drop (length nss - 60) (map (\<lambda>(now, s). or0 (framesDecoded s)) nss)
   \<and> h_fps (hist (run initialPlayer (video_samples nss))) =
       drop (length nss - 60) (map (\<lambda>(now, s). or0 (framesPerSecond s)) nss)
   \<and> (length nss = 100 \<longrightarrow>
        h_framesDecoded (hist (run initialPlayer (video_samples nss))) =
          drop 40 (map (\<lambda>(now, s). or0 (framesDecoded s)) nss)
        \<and> h_fps (hist (run initialPlayer (video_samples nss))) =
          drop 40 (map (\<lambda>(now, s). or0 (framesPerSecond s)) nss))"
proof -
  have eq: "pushes ys vs = drop (length (ys @ vs) - 60) (ys @ vs)" if "length ys \<le> 60" for ys
    by (rule pushes_drop [OF that])
  have a: "length (pushes xs vs) \<le> 60" if "length xs \<le> 60"
    using eq [OF that] by simp
  have b: "pushes [] vs = drop (length vs - 60) vs"
    using eq [of "[]"] by simp
  have c: "pushes [] vs = drop 40 vs" if "length vs = 100"
    using b that by simp
  have s1: "h_fps (hist (run p evs)) =
       pushes (h_fps (hist p)) (List.map_filter sample_fps (reports p evs))"
    by (rule run_series) (simp add: updateStatsHistory_series sample_fps_def split: option.splits)
  have s2: "h_videoFrameCallbackFps (hist (run p evs)) =
       pushes (h_videoFrameCallbackFps (hist p))
         (List.map_filter sample_videoFrameCallbackFps (reports p evs))"
    by (rule run_series)
       (simp add: updateStatsHistory_series sample_videoFrameCallbackFps_def split: option.splits)
  have s3: "h_bitrate (hist (run p evs)) =
       pushes (h_bitrate (hist p)) (List.map_filter sample_bitrate (reports p evs))"
    by (rule run_series)
       (simp add: updateStatsHistory_series sample_bitrate_def split: option.splits)
  have s4: "h_rtt (hist (run p evs)) =
       pushes (h_rtt (hist p)) (List.map_filter sample_rtt (reports p evs))"
    by (rule run_series) (simp add: updateStatsHistory_series sample_rtt_def split: option.splits)
  have s5: "h_framesDecoded (hist (run q es)) =
       pushes (h_framesDecoded (hist q)) (List.map_filter sample_framesDecoded (reports q es))"
    for q es
    by (rule run_series)
       (simp add: updateStatsHistory_series sample_framesDecoded_def split: option.splits)
  have s6: "h_framesDropped (hist (run p evs)) =
       pushes (h_framesDropped (hist p)) (List.map_filter sample_framesDropped (reports p evs))"
    by (rule run_series)
       (simp add: updateStatsHistory_series sample_framesDropped_def split: option.splits)
  have s1': "h_fps (hist (run q es)) =
       pushes (h_fps (hist q)) (List.map_filter sample_fps (reports q es))" for q es
    by (rule run_series) (simp add: updateStatsHistory_series sample_fps_def split: option.splits)
  have empty: "h_framesDecoded (hist initialPlayer) = []" "h_fps (hist initialPlayer) = []"
    by (simp_all add: initialPlayer_def initialStatsHistory_def)
  have d: "h_framesDecoded (hist (run initialPlayer (video_samples nss))) =
       drop (length nss - 60) (map (\<lambda>(now, s). or0 (framesDecoded s)) nss)"
    using pushes_drop [of "[]" "map (\<lambda>(now, s). or0 (framesDecoded s)) nss"]
    by (simp add: s5 empty video_samples_decoded)
  have f: "h_fps (hist (run initialPlayer (video_samples nss))) =
       drop (length nss - 60) (map (\<lambda>(now, s). or0 (framesPerSecond s)) nss)"
    using pushes_drop [of "[]" "map (\<lambda>(now, s). or0 (framesPerSecond s)) nss"]
    by (simp add: s1' empty video_samples_fps)
  have g: "h_framesDecoded (hist (run initialPlayer (video_samples nss))) =
          drop 40 (map (\<lambda>(now, s). or0 (framesDecoded s)) nss)
        \<and> h_fps (hist (run initialPlayer (video_samples nss))) =
          drop 40 (map (\<lambda>(now, s). or0 (framesPerSecond s)) nss)"
    if "length nss = 100"
    using d f that by simp
  from a b c run_bounded [of p evs] run_bounded [OF initial_bounded, of evs]
    s1 s2 s3 s4 s5 [of p evs] s6 d f g
  show ?thesis by blast
qed

lemma decoded_at_samples:
  "map (\<lambda>(now, s). or0 (framesDecoded s)) (map decoded_at ns) = map real ns"
  "map (\<lambda>(now, s). or0 (framesPerSecond s)) (map decoded_at ns) = map (\<lambda>n. 30 + real n) ns"
  by (simp_all add: decoded_at_def or0_def bytes_at_def)

text \<open>
  C4 at the pushes of 1, \<dots>, 100 into an empty series, which leave 41, \<dots>, 100; at a
  player that takes 100 samples whose \<open>n\<close>-th reports \<open>n\<close> frames decoded at \<open>30 + n\<close> frames
  per second, which leave 41, \<dots>, 100 and 71, \<dots>, 130; and at a player that takes two
  samples.
\<close>

theorem history_capacity_witness:
  "length [1, 2, 3 :: nat] \<le> 60
   \<and> length (pushes [1, 2, 3 :: nat] [4 ..< 100]) \<le> 60
   \<and> length [1 ..< 101] = 100
   \<and> pushes [] [1 ..< 101] = [41 ..< 101]
   \<and> history_bounded (hist initialPlayer)
   \<and> history_bounded (hist (run initialPlayer
        [StatsSample 5 [InboundVideo (bytes_at 1000 0)], StatsSample 6 [CandidatePair None]]))
   \<and> length (map decoded_at [1 ..< 101]) = 100
   \<and> h_framesDecoded (hist (run initialPlayer (video_samples (map decoded_at [1 ..< 101])))) =
       map real [41 ..< 101]
   \<and> h_fps (hist (run initialPlayer (video_samples (map decoded_at [1 ..< 101])))) =
       map (\<lambda>n. 30 + real n) [41 ..< 101]
   \<and> h_framesDecoded (hist (run initialPlayer (video_samples [decoded_at 7, decoded_at 9]))) =
       [7, 9]"
proof -
  have d: "drop 40 [1 ..< 101] = [41 ..< 101]"
    by simp
  have len: "length (map decoded_at [1 ..< 101]) = 100"
    by simp
  have old: "length [1, 2, 3 :: nat] \<le> 60
   \<and> length (pushes [1, 2, 3 :: nat] [4 ..< 100]) \<le> 60
   \<and> length [1 ..< 101] = 100
   \<and> pushes [] [1 ..< 101] = [41 ..< 101]
   \<and> history_bounded (hist initialPlayer)
   \<and> history_bounded (hist (run initialPlayer
        [StatsSample 5 [InboundVideo (bytes_at 1000 0)], StatsSample 6 [CandidatePair None]]))"
    using history_capacity [where xs = "[1, 2, 3 :: nat]" and vs = "[4 ..< 100]"
        and p = initialPlayer and nss = "[]"
        and evs = "[StatsSample 5 [InboundVideo (bytes_at 1000 0)], StatsSample 6 [CandidatePair None]]"]
      history_capacity [where xs = "[] :: nat list" and vs = "[1 ..< 101]"
        and p = initialPlayer and nss = "[]"
        and evs = "[StatsSample 5 [InboundVideo (bytes_at 1000 0)], StatsSample 6 [CandidatePair None]]"]
      initial_bounded d
    by simp
  have hundred:
    "h_framesDecoded (hist (run initialPlayer (video_samples (map decoded_at [1 ..< 101])))) =
       drop 40 (map (\<lambda>(now, s). or0 (framesDecoded s)) (map decoded_at [1 ..< 101]))"
    "h_fps (hist (run initialPlayer (video_samples (map decoded_at [1 ..< 101])))) =
       drop 40 (map (\<lambda>(now, s). or0 (framesPerSecond s)) (map decoded_at [1 ..< 101]))"
    using history_capacity [where xs = "[] :: nat list" and vs = "[]" and p = initialPlayer
        and evs = "[]" and nss = "map decoded_at [1 ..< 101]"] len
    by blast+
  have two: "h_framesDecoded (hist (run initialPlayer (video_samples [decoded_at 7, decoded_at 9]))) =
       drop (length [decoded_at 7, decoded_at 9] - 60)
         (map (\<lambda>(now, s). or0 (framesDecoded s)) (map decoded_at [7, 9]))"
    using history_capacity [where xs = "[] :: nat list" and vs = "[]" and p = initialPlayer
        and evs = "[]" and nss = "[decoded_at 7, decoded_at 9]"]
    by simp
  have h1: "h_framesDecoded (hist (run initialPlayer (video_samples (map decoded_at [1 ..< 101])))) =
       map real [41 ..< 101]"
    unfolding hundred(1) decoded_at_samples(1) drop_map d ..
  have h2: "h_fps (hist (run initialPlayer (video_samples (map decoded_at [1 ..< 101])))) =
       map (\<lambda>n. 30 + real n) [41 ..< 101]"
    unfolding hundred(2) decoded_at_samples(2) drop_map d ..
  have h3: "h_framesDecoded (hist (run initialPlayer (video_samples [decoded_at 7, decoded_at 9]))) =
       [7, 9]"
    unfolding two decoded_at_samples(1) by simp
  from old len h1 h2 h3 show ?thesis by blast
qed

section \<open>Retention of the previous snapshot\<close>

lemma parseEntry_last:
  "lastVideo (snd (parseEntry now rp e)) =
     (case e of InboundVideo s \<Rightarrow> Some s | _ \<Rightarrow> lastVideo (snd rp))"
  "lastAudio (snd (parseEntry now rp e)) =
     (case e of InboundAudio s \<Rightarrow> Some s | _ \<Rightarrow> lastAudio (snd rp))"
  by (cases rp; cases e; simp add: split_beta parseVideo_def parseAudio_def Let_def)+

lemma foldl_parseEntry_last:
  "lastVideo (snd (foldl (parseEntry now) rp stats)) =
     foldl (\<lambda>acc e. case e of InboundVideo s \<Rightarrow> Some s | _ \<Rightarrow> acc) (lastVideo (snd rp)) stats
   \<and> lastAudio (snd (foldl (parseEntry now) rp stats)) =
     foldl (\<lambda>acc e. case e of InboundAudio s \<Rightarrow> Some s | _ \<Rightarrow> acc) (lastAudio (snd rp)) stats"
  by (induction stats rule: rev_induct) (simp_all add: parseEntry_last split: stat.splits)

lemma foldl_keep_last:
  "foldl (\<lambda>acc e. case f e of Some s \<Rightarrow> Some s | None \<Rightarrow> acc) a xs =
     (case foldl (\<lambda>acc e. case f e of Some s \<Rightarrow> Some s | None \<Rightarrow> acc) None xs of
        None \<Rightarrow> a | Some s \<Rightarrow> Some s)"
  by (induction xs rule: rev_induct) (simp_all split: option.splits)

lemma video_pick:
  "(\<lambda>acc e. case e of InboundVideo s \<Rightarrow> Some s | _ \<Rightarrow> acc) =
   (\<lambda>acc e. case (case e of InboundVideo s \<Rightarrow> Some s | _ \<Rightarrow> None) of
               Some s \<Rightarrow> Some s | None \<Rightarrow> acc)"
  by (intro ext) (simp split: stat.splits)

lemma audio_pick:
  "(\<lambda>acc e. case e of InboundAudio s \<Rightarrow> Some s | _ \<Rightarrow> acc) =
   (\<lambda>acc e. case (case e of InboundAudio s \<Rightarrow> Some s | _ \<Rightarrow> None) of
               Some s \<Rightarrow> Some s | None \<Rightarrow> acc)"
  by (intro ext) (simp split: stat.splits)

lemma parseStats_last:
  "lastVideo (snd (parseStats now stats p)) =
     (case last_video stats of None \<Rightarrow> lastVideo p | Some s \<Rightarrow> Some s)"
  "lastAudio (snd (parseStats now stats p)) =
     (case last_audio stats of None \<Rightarrow> lastAudio p | Some s \<Rightarrow> Some s)"
proof -
  show "lastVideo (snd (parseStats now stats p)) =
     (case last_video stats of None \<Rightarrow> lastVideo p | Some s \<Rightarrow> Some s)"
    using foldl_parseEntry_last [of now "(emptyReport, p)" stats]
      foldl_keep_last [of "\<lambda>e. case e of InboundVideo s \<Rightarrow> Some s | _ \<Rightarrow> None" "lastVideo p" stats]
    by (simp add: parseStats_def last_video_def video_pick)
  show "lastAudio (snd (parseStats now stats p)) =
     (case last_audio stats of None \<Rightarrow> lastAudio p | Some s \<Rightarrow> Some s)"
    using foldl_parseEntry_last [of now "(emptyReport, p)" stats]
      foldl_keep_last [of "\<lambda>e. case e of InboundAudio s \<Rightarrow> Some s | _ \<Rightarrow> None" "lastAudio p" stats]
    by (simp add: parseStats_def last_audio_def audio_pick)
qed

lemma step_last:
  "lastVideo (step p e) =
     (case e of
        StatsSample now stats \<Rightarrow>
          (case last_video stats of None \<Rightarrow> lastVideo p | Some s \<Rightarrow> Some s)
      | _ \<Rightarrow> lastVideo p)"
  "lastAudio (step p e) =
     (case e of
        StatsSample now stats \<Rightarrow>
          (case last_audio stats of None \<Rightarrow> lastAudio p | Some s \<Rightarrow> Some s)
      | _ \<Rightarrow> lastAudio p)"
proof -
  have other: "lastVideo (onConnectionStateChange s p) = lastVideo p"
    "lastAudio (onConnectionStateChange s p) = lastAudio p"
    "lastVideo (startPlaying_settled out p) = lastVideo p"
    "lastAudio (startPlaying_settled out p) = lastAudio p"
    "lastVideo (onTimeout a p) = lastVideo p"
    "lastAudio (onTimeout a p) = lastAudio p"
    "lastVideo (setRemoteDescription sdp p) = lastVideo p"
    "lastAudio (setRemoteDescription sdp p) = lastAudio p"
    "lastVideo (monitorVideoTrack t p) = lastVideo p"
    "lastAudio (monitorVideoTrack t p) = lastAudio p"
    "lastVideo (frameCallback k t n p) = lastVideo p"
    "lastAudio (frameCallback k t n p) = lastAudio p"
    for s out a sdp t k n
    by (simp_all add: onConnectionStateChange_def attemptReconnect_def updateConnectionStatus_def
        showError_def setTimeout_def showLoading_def startPlaying_settled_def
        startPlaying_resolved_def handlePlaybackError_def startPlaying_begin_def onTimeout_def
        setRemoteDescription_def monitorVideoTrack_def frameCallback_def onFrame_def Let_def
        split_beta split: play_outcome.splits timeout_action.splits)
  have sample: "lastVideo (updateDebugInfo now stats p) = lastVideo (snd (parseStats now stats p))"
    "lastAudio (updateDebugInfo now stats p) = lastAudio (snd (parseStats now stats p))"
    for now stats
    by (simp_all add: updateDebugInfo_def split_beta)
  show "lastVideo (step p e) =
     (case e of
        StatsSample now stats \<Rightarrow>
          (case last_video stats of None \<Rightarrow> lastVideo p | Some s \<Rightarrow> Some s)
      | _ \<Rightarrow> lastVideo p)"
    by (cases e) (simp_all add: other sample parseStats_last)
  show "lastAudio (step p e) =
     (case e of
        StatsSample now stats \<Rightarrow>
          (case last_audio stats of None \<Rightarrow> lastAudio p | Some s \<Rightarrow> Some s)
      | _ \<Rightarrow> lastAudio p)"
    by (cases e) (simp_all add: other sample parseStats_last)
qed

lemma two_samples:
  "map_option v_bitrate
     (r_video (fst (parseStats n2 [InboundVideo b] (snd (parseStats n1 [InboundVideo a] p))))) =
     Some (bitrate (Some a) b)"
  "map_option a_bitrate
     (r_audio (fst (parseStats n2 [InboundAudio b] (snd (parseStats n1 [InboundAudio a] p))))) =
     Some (bitrate (Some a) b)"
  by (simp_all add: parseStats_def emptyReport_def split_beta parseVideo_report parseAudio_report)

lemma first_sample:
  "map_option v_bitrate (r_video (fst (parseStats n1 [InboundVideo b] initialPlayer))) =
     Some (bitrate None b)"
  "map_option a_bitrate (r_audio (fst (parseStats n1 [InboundAudio b] initialPlayer))) =
     Some (bitrate None b)"
  by (simp_all add: parseStats_def emptyReport_def split_beta parseVideo_report parseAudio_report
      initialPlayer_def)

lemma updateDebugInfo_last:
  "lastVideo (updateDebugInfo now stats p) = lastVideo (snd (parseStats now stats p))"
  "lastAudio (updateDebugInfo now stats p) = lastAudio (snd (parseStats now stats p))"
  by (simp_all add: updateDebugInfo_def split_beta)

lemma audio_sample_recorded:
  "h_bitrate (hist (updateDebugInfo n [InboundAudio b] q)) =
     push_shift STATS_HISTORY_SIZE (h_bitrate (hist q)) (bitrate (lastAudio q) b)"
  by (simp add: updateDebugInfo_hist updateStatsHistory_series parseStats_single_audio
      parseAudio_report)

lemma two_audio_samples_recorded:
  "h_bitrate (hist (run initialPlayer (audio_samples [(n1, a), (n2, b)]))) =
     [bitrate None a, bitrate (Some a) b]"
proof -
  let ?p1 = "updateDebugInfo n1 [InboundAudio a] initialPlayer"
  have l1: "lastAudio ?p1 = Some a"
    by (simp add: updateDebugInfo_last parseStats_single_audio parseAudio_report)
  have l0: "lastAudio initialPlayer = None" "h_bitrate (hist initialPlayer) = []"
    by (simp_all add: initialPlayer_def initialStatsHistory_def)
  have h1: "h_bitrate (hist ?p1) = [bitrate None a]"
    unfolding audio_sample_recorded l0 by (simp add: push_shift_def STATS_HISTORY_SIZE_def)
  have "h_bitrate (hist (updateDebugInfo n2 [InboundAudio b] ?p1)) =
          [bitrate None a, bitrate (Some a) b]"
    unfolding audio_sample_recorded [of n2 b ?p1] l1 h1
    by (simp add: push_shift_def STATS_HISTORY_SIZE_def)
  then show ?thesis
    by (simp only: run_def audio_samples_def list.map prod.case foldl.simps step.simps)
qed

section \<open>Bitrate\<close>

text \<open>
  C5. The bitrate of an entry \<open>b\<close> against the retained entry \<open>a\<close> is
  \<open>(currentBytes - previousBytes) * 8 / elapsedSeconds\<close>, the elapsed seconds being the
  timestamp difference over 1000, or 1 when that difference is 0; without a retained
  entry the interval is 1 second and the previous bytes are 0. A byte counter that went
  down over a positive interval gives a negative bitrate. The retained entry is the
  previous snapshot: the video and the audio branch of \<open>parseStats\<close> report the bitrate
  against \<open>lastStats\<close> and then store the current entry there, no other event changes
  \<open>lastStats\<close>, and the initial player retains nothing. So of two consecutive samples
  \<open>a\<close> then \<open>b\<close> the second reports the bitrate of \<open>b\<close> against \<open>a\<close>: from (1000 bytes,
  t = 0) to (2000 bytes, t = 1000 ms) it is 8000, and the initial player records 8000
  and 8000 for these two as audio samples.
\<close>

theorem bitrate_formula:
  "bitrate (Some a) b =
     (case bytesReceived b of
        None \<Rightarrow> None
      | Some cur \<Rightarrow>
          Some ((cur - or0 (bytesReceived a)) * 8 /
                (if timestamp b - timestamp a = 0 then 1 else (timestamp b - timestamp a) / 1000)))
   \<and> bitrate None b = map_option (\<lambda>cur. (cur - 0) * 8 / 1) (bytesReceived b)
   \<and> bitrate (Some (bytes_at 1000 0)) (bytes_at 2000 1000) = Some 8000
   \<and> (bytesReceived b = Some cur \<and> cur < or0 (bytesReceived a) \<and> timestamp a < timestamp b
        \<longrightarrow> (\<exists>r. bitrate (Some a) b = Some r \<and> r < 0))
   \<and> v_bitrate (fst (parseVideo now b p)) = bitrate (lastVideo p) b
   \<and> a_bitrate (fst (parseAudio b p)) = bitrate (lastAudio p) b
   \<and> lastVideo (snd (parseVideo now b p)) = Some b
   \<and> lastAudio (snd (parseAudio b p)) = Some b
   \<and> lastVideo (step p e) =
       (case e of
          StatsSample t stats \<Rightarrow>
            (case last_video stats of None \<Rightarrow> lastVideo p | Some s \<Rightarrow> Some s)
        | _ \<Rightarrow> lastVideo p)
   \<and> lastAudio (step p e) =
       (case e of
          StatsSample t stats \<Rightarrow>
            (case last_audio stats of None \<Rightarrow> lastAudio p | Some s \<Rightarrow> Some s)
        | _ \<Rightarrow> lastAudio p)
   \<and> map_option v_bitrate
       (r_video (fst (parseStats n2 [InboundVideo b] (snd (parseStats n1 [InboundVideo a] p))))) =
       Some (bitrate (Some a) b)
   \<and> map_option a_bitrate
       (r_audio (fst (parseStats n2 [InboundAudio b] (snd (parseStats n1 [InboundAudio a] p))))) =
       Some (bitrate (Some a) b)
   \<and> map_option v_bitrate (r_video (fst (parseStats n1 [InboundVideo b] initialPlayer))) =
       Some (bitrate None b)
   \<and> map_option a_bitrate (r_audio (fst (parseStats n1 [InboundAudio b] initialPlayer))) =
       Some (bitrate None b)
   \<and> map_option v_bitrate
       (r_video (fst (parseStats n2 [InboundVideo (bytes_at 2000 1000)]
          (snd (parseStats n1 [InboundVideo (bytes_at 1000 0)] p))))) = Some (Some 8000)
   \<and> h_bitrate (hist (run initialPlayer (audio_samples [(n1, a), (n2, b)]))) =
       [bitrate None a, bitrate (Some a) b]
   \<and> h_bitrate (hist (run initialPlayer
         (audio_samples [(n1, bytes_at 1000 0), (n2, bytes_at 2000 1000)]))) =
       [Some 8000, Some 8000]"
proof -
  have neg: "\<exists>r. bitrate (Some a) b = Some r \<and> r < 0"
    if "bytesReceived b = Some cur" "cur < or0 (bytesReceived a)" "timestamp a < timestamp b"
  proof -
    have "(cur - or0 (bytesReceived a)) * 8 < 0" using that(2) by simp
    moreover have "0 < (timestamp b - timestamp a) / 1000" using that(3) by simp
    ultimately have "(cur - or0 (bytesReceived a)) * 8 / ((timestamp b - timestamp a) / 1000) < 0"
      by (rule divide_neg_pos)
    with that show ?thesis by (simp add: bitrate_def timeDiff_def prev0_def)
  qed
  have general: "bitrate (Some a) b =
     (case bytesReceived b of
        None \<Rightarrow> None
      | Some cur \<Rightarrow>
          Some ((cur - or0 (bytesReceived a)) * 8 /
                (if timestamp b - timestamp a = 0 then 1 else (timestamp b - timestamp a) / 1000)))"
    by (simp add: bitrate_def timeDiff_def prev0_def split: option.splits)
  have first: "bitrate None b = map_option (\<lambda>cur. (cur - 0) * 8 / 1) (bytesReceived b)"
    by (simp add: bitrate_def timeDiff_def prev0_def split: option.splits)
  have example: "bitrate (Some (bytes_at 1000 0)) (bytes_at 2000 1000) = Some 8000"
    and example0: "bitrate None (bytes_at 1000 0) = Some 8000"
    by (simp_all add: bitrate_def timeDiff_def prev0_def or0_def bytes_at_def)
  have video: "v_bitrate (fst (parseVideo now b p)) = bitrate (lastVideo p) b"
    and audio: "a_bitrate (fst (parseAudio b p)) = bitrate (lastAudio p) b"
    and keepv: "lastVideo (snd (parseVideo now b p)) = Some b"
    and keepa: "lastAudio (snd (parseAudio b p)) = Some b"
    by (simp_all add: parseVideo_report parseAudio_report)
  have twice: "map_option v_bitrate
       (r_video (fst (parseStats n2 [InboundVideo (bytes_at 2000 1000)]
          (snd (parseStats n1 [InboundVideo (bytes_at 1000 0)] p))))) = Some (Some 8000)"
    using two_samples(1) [of n2 "bytes_at 2000 1000" n1 "bytes_at 1000 0" p] example by simp
  have recorded: "h_bitrate (hist (run initialPlayer
         (audio_samples [(n1, bytes_at 1000 0), (n2, bytes_at 2000 1000)]))) =
       [Some 8000, Some 8000]"
    using two_audio_samples_recorded [of n1 "bytes_at 1000 0" n2 "bytes_at 2000 1000"]
      example example0 by simp
  from neg general first example video audio keepv keepa step_last [of p e]
    two_samples [of n2 b n1 a p] first_sample [of n1 b] twice
    two_audio_samples_recorded [of n1 a n2 b] recorded
  show ?thesis by blast
qed

text \<open>
  C5 at a counter that fell from 2000 to 500 bytes in 3 seconds (bitrate -4000), at two
  entries with the same timestamp (interval 1 second), at a first sample, and at two
  consecutive samples of 250 bytes and, 3 seconds later, 1750 bytes on the initial
  player: 2000 for the first, 4000 for the second, the first entry being retained across
  a disconnection.
\<close>

theorem bitrate_formula_witness:
  "bytesReceived (bytes_at 500 4000) = Some 500
   \<and> 500 < or0 (bytesReceived (bytes_at 2000 1000))
   \<and> timestamp (bytes_at 2000 1000) < timestamp (bytes_at 500 4000)
   \<and> bitrate (Some (bytes_at 2000 1000)) (bytes_at 500 4000) = Some (- 4000)
   \<and> bitrate (Some (bytes_at 1000 0)) (bytes_at 2000 0) = Some 8000
   \<and> bitrate None (bytes_at 2000 1000) = Some 16000
   \<and> v_bitrate (fst (parseVideo 7 (bytes_at 2000 1000)
        (initialPlayer\<lparr> lastVideo := Some (bytes_at 1000 0) \<rparr>))) = Some 8000
   \<and> map_option v_bitrate
       (r_video (fst (parseStats 8 [InboundVideo (bytes_at 1750 3000)]
          (snd (parseStats 7 [InboundVideo (bytes_at 250 0)] initialPlayer))))) = Some (Some 4000)
   \<and> lastVideo (run initialPlayer
        [StatsSample 7 [InboundVideo (bytes_at 250 0), InboundAudio (bytes_at 10 0)],
         ConnectionStateChange ''failed'', TimeoutFires CallStartPlaying]) = Some (bytes_at 250 0)
   \<and> h_bitrate (hist (run initialPlayer
         (audio_samples [(7, bytes_at 250 0), (8, bytes_at 1750 3000)]))) =
       [Some 2000, Some 4000]"
proof -
  have old: "bytesReceived (bytes_at 500 4000) = Some 500
   \<and> 500 < or0 (bytesReceived (bytes_at 2000 1000))
   \<and> timestamp (bytes_at 2000 1000) < timestamp (bytes_at 500 4000)
   \<and> bitrate (Some (bytes_at 2000 1000)) (bytes_at 500 4000) = Some (- 4000)
   \<and> bitrate (Some (bytes_at 1000 0)) (bytes_at 2000 0) = Some 8000
   \<and> bitrate None (bytes_at 2000 1000) = Some 16000
   \<and> v_bitrate (fst (parseVideo 7 (bytes_at 2000 1000)
        (initialPlayer\<lparr> lastVideo := Some (bytes_at 1000 0) \<rparr>))) = Some 8000"
    using bitrate_formula [where a = "bytes_at 2000 1000" and b = "bytes_at 500 4000"
        and cur = 500 and now = 7 and p = initialPlayer and e = "VideoTrack 0"
        and ?n1.0 = 7 and ?n2.0 = 8]
      bitrate_formula [where a = "bytes_at 1000 0" and b = "bytes_at 2000 0"
        and cur = 2000 and now = 7 and p = initialPlayer and e = "VideoTrack 0"
        and ?n1.0 = 7 and ?n2.0 = 8]
      bitrate_formula [where a = "bytes_at 1000 0" and b = "bytes_at 2000 1000"
        and cur = 2000 and now = 7
        and p = "initialPlayer\<lparr> lastVideo := Some (bytes_at 1000 0) \<rparr>" and e = "VideoTrack 0"
        and ?n1.0 = 7 and ?n2.0 = 8]
    by (simp add: or0_def bytes_at_def)
  have vals: "bitrate (Some (bytes_at 250 0)) (bytes_at 1750 3000) = Some 4000"
    "bitrate None (bytes_at 250 0) = Some 2000"
    by (simp_all add: bitrate_def timeDiff_def prev0_def or0_def bytes_at_def)
  note inst = bitrate_formula [where a = "bytes_at 250 0" and b = "bytes_at 1750 3000"
        and cur = 1750 and now = 7 and p = initialPlayer and e = "VideoTrack 0"
        and ?n1.0 = 7 and ?n2.0 = 8]
  from inst have "map_option v_bitrate
       (r_video (fst (parseStats 8 [InboundVideo (bytes_at 1750 3000)]
          (snd (parseStats 7 [InboundVideo (bytes_at 250 0)] initialPlayer))))) =
       Some (bitrate (Some (bytes_at 250 0)) (bytes_at 1750 3000))"
    by (elim conjE)
  then have twice: "map_option v_bitrate
       (r_video (fst (parseStats 8 [InboundVideo (bytes_at 1750 3000)]
          (snd (parseStats 7 [InboundVideo (bytes_at 250 0)] initialPlayer))))) = Some (Some 4000)"
    unfolding vals .
  from inst have "h_bitrate (hist (run initialPlayer
         (audio_samples [(7, bytes_at 250 0), (8, bytes_at 1750 3000)]))) =
       [bitrate None (bytes_at 250 0), bitrate (Some (bytes_at 250 0)) (bytes_at 1750 3000)]"
    by (elim conjE)
  then have rec: "h_bitrate (hist (run initialPlayer
         (audio_samples [(7, bytes_at 250 0), (8, bytes_at 1750 3000)]))) =
       [Some 2000, Some 4000]"
    unfolding vals .
  let ?p1 = "step initialPlayer
      (StatsSample 7 [InboundVideo (bytes_at 250 0), InboundAudio (bytes_at 10 0)])"
  let ?p2 = "step ?p1 (ConnectionStateChange ''failed'')"
  have k1: "lastVideo ?p1 = Some (bytes_at 250 0)"
    using bitrate_formula [where a = "bytes_at 250 0" and b = "bytes_at 1750 3000"
        and cur = 1750 and now = 7 and p = initialPlayer
        and e = "StatsSample 7 [InboundVideo (bytes_at 250 0), InboundAudio (bytes_at 10 0)]"
        and ?n1.0 = 7 and ?n2.0 = 8]
    by (simp add: last_video_def)
  have k2: "lastVideo ?p2 = lastVideo ?p1"
    using bitrate_formula [where a = "bytes_at 250 0" and b = "bytes_at 1750 3000"
        and cur = 1750 and now = 7 and p = ?p1 and e = "ConnectionStateChange ''failed''"
        and ?n1.0 = 7 and ?n2.0 = 8]
    by simp
  have k3: "lastVideo (step ?p2 (TimeoutFires CallStartPlaying)) = lastVideo ?p2"
    using bitrate_formula [where a = "bytes_at 250 0" and b = "bytes_at 1750 3000"
        and cur = 1750 and now = 7 and p = ?p2 and e = "TimeoutFires CallStartPlaying"
        and ?n1.0 = 7 and ?n2.0 = 8]
    by simp
  have keep: "lastVideo (run initialPlayer
        [StatsSample 7 [InboundVideo (bytes_at 250 0), InboundAudio (bytes_at 10 0)],
         ConnectionStateChange ''failed'', TimeoutFires CallStartPlaying]) = Some (bytes_at 250 0)"
    using k1 k2 k3 by (simp add: run_def)
  from old twice keep rec show ?thesis by blast
qed

section \<open>Series that are never fed\<close>

lemma step_unfed:
  "h_packetLoss (hist (step p e)) = h_packetLoss (hist p)
   \<and> h_jitter (hist (step p e)) = h_jitter (hist p)
   \<and> h_keyFrameInterval (hist (step p e)) = h_keyFrameInterval (hist p)"
  by (cases e) (simp_all add: updateDebugInfo_hist updateStatsHistory_series)

lemma run_unfed:
  "h_packetLoss (hist (run p evs)) = h_packetLoss (hist p)
   \<and> h_jitter (hist (run p evs)) = h_jitter (hist p)
   \<and> h_keyFrameInterval (hist (run p evs)) = h_keyFrameInterval (hist p)"
  by (induction evs rule: rev_induct) (simp_all add: run_def step_unfed)

text \<open>
  C8. No event writes the \<open>packetLoss\<close>, \<open>jitter\<close> and \<open>keyFrameInterval\<close> series:
  \<open>updateStatsHistory\<close>, the only method that writes \<open>statsHistory\<close>, leaves them as they
  are, so after any events on the initial player their length is 0.
\<close>

theorem unfed_series_stay_empty:
  "h_packetLoss (hist (run p evs)) = h_packetLoss (hist p)
   \<and> h_jitter (hist (run p evs)) = h_jitter (hist p)
   \<and> h_keyFrameInterval (hist (run p evs)) = h_keyFrameInterval (hist p)
   \<and> h_packetLoss (updateStatsHistory r h) = h_packetLoss h
   \<and> h_jitter (updateStatsHistory r h) = h_jitter h
   \<and> h_keyFrameInterval (updateStatsHistory r h) = h_keyFrameInterval h
   \<and> length (h_packetLoss (hist (run initialPlayer evs))) = 0
   \<and> length (h_jitter (hist (run initialPlayer evs))) = 0
   \<and> length (h_keyFrameInterval (hist (run initialPlayer evs))) = 0"
  using run_unfed [of p evs] run_unfed [of initialPlayer evs]
  by (simp add: updateStatsHistory_series initialPlayer_def initialStatsHistory_def)

text \<open>
  C8 after a sample with a video entry, an audio entry and a candidate pair: the round
  trip time is recorded, the three series are empty.
\<close>

theorem unfed_series_stay_empty_witness:
  "h_packetLoss (hist (run initialPlayer
      [StatsSample 5 [InboundVideo (bytes_at 1000 0), InboundAudio (bytes_at 10 0),
         CandidatePair (Some 2)]])) = []
   \<and> h_jitter (hist (run initialPlayer
      [StatsSample 5 [InboundVideo (bytes_at 1000 0), InboundAudio (bytes_at 10 0),
         CandidatePair (Some 2)]])) = []
   \<and> h_keyFrameInterval (hist (run initialPlayer
      [StatsSample 5 [InboundVideo (bytes_at 1000 0), InboundAudio (bytes_at 10 0),
         CandidatePair (Some 2)]])) = []
   \<and> h_rtt (hist (run initialPlayer
      [StatsSample 5 [InboundVideo (bytes_at 1000 0), InboundAudio (bytes_at 10 0),
         CandidatePair (Some 2)]])) = [2000]"
proof -
  have rtt: "h_rtt (hist (run initialPlayer
      [StatsSample 5 [InboundVideo (bytes_at 1000 0), InboundAudio (bytes_at 10 0),
         CandidatePair (Some 2)]])) = [2000]"
    by (simp add: run_def updateDebugInfo_hist updateStatsHistory_series parseStats_def
        split_beta emptyReport_def push_shift_def STATS_HISTORY_SIZE_def
        initialPlayer_def initialStatsHistory_def)
  show ?thesis
    using unfed_series_stay_empty [of initialPlayer
      "[StatsSample 5 [InboundVideo (bytes_at 1000 0), InboundAudio (bytes_at 10 0),
         CandidatePair (Some 2)]]"] rtt
    by (simp add: initialPlayer_def initialStatsHistory_def)
qed


section \<open>The bitrate series\<close>

lemma parseEntry_audio:
  "r_audio (fst (parseEntry now rp e)) =
     (case e of InboundAudio s \<Rightarrow> Some (fst (parseAudio s (snd rp)))
              | _ \<Rightarrow> r_audio (fst rp))"
  by (cases rp; cases e; simp add: split_beta)

lemma foldl_parseEntry_audio:
  "(r_audio (fst (foldl (parseEntry now) rp stats)) = None) =
     (r_audio (fst rp) = None \<and> \<not> has_audio stats)"
proof (induction stats rule: rev_induct)
  case Nil
  then show ?case by (simp add: has_audio_def)
next
  case (snoc e stats)
  then show ?case
    by (cases e) (simp_all add: parseEntry_audio has_audio_def)
qed

lemma parseStats_audio:
  "(r_audio (fst (parseStats now stats p)) = None) = (\<not> has_audio stats)"
  using foldl_parseEntry_audio [of now "(emptyReport, p)" stats]
  by (simp add: parseStats_def emptyReport_def)

lemma updateStatsHistory_ignores_video_bitrate:
  "updateStatsHistory (r\<lparr> r_video := map_option (\<lambda>v. v\<lparr> v_bitrate := b \<rparr>) (r_video r) \<rparr>) h =
     updateStatsHistory r h"
  by (cases "r_video r") (simp_all add: updateStatsHistory_def Let_def)

text \<open>
  C9. \<open>updateStatsHistory\<close> pushes \<open>report.audio.bitrate\<close> to the \<open>bitrate\<close> series when the
  report has an audio part, and leaves the series alone otherwise; the report has an
  audio part exactly when the sample holds an \<open>inbound-rtp\<close> audio entry, and the value
  pushed is then the bitrate computed for that entry. The result of \<open>updateStatsHistory\<close>
  does not depend on the video bitrate.
\<close>

theorem bitrate_series_is_audio:
  "h_bitrate (updateStatsHistory r h) =
     (case r_audio r of
        None \<Rightarrow> h_bitrate h
      | Some a \<Rightarrow> push_shift 60 (h_bitrate h) (a_bitrate a))
   \<and> updateStatsHistory (r\<lparr> r_video := map_option (\<lambda>v. v\<lparr> v_bitrate := b \<rparr>) (r_video r) \<rparr>) h =
       updateStatsHistory r h
   \<and> (r_audio (fst (parseStats now stats p)) = None) = (\<not> has_audio stats)
   \<and> h_bitrate (hist (updateDebugInfo now [InboundVideo sv] p)) = h_bitrate (hist p)
   \<and> h_bitrate (hist (updateDebugInfo now [InboundVideo sv, InboundAudio sa] p)) =
       push_shift 60 (h_bitrate (hist p)) (bitrate (lastAudio p) sa)"
proof -
  have one: "h_bitrate (hist (updateDebugInfo now [InboundVideo sv] p)) = h_bitrate (hist p)"
    by (simp add: updateDebugInfo_hist updateStatsHistory_series parseStats_def split_beta
        emptyReport_def)
  have "lastAudio (snd (parseVideo now sv p)) = lastAudio p"
    by (simp add: parseVideo_def Let_def)
  then have two: "h_bitrate (hist (updateDebugInfo now [InboundVideo sv, InboundAudio sa] p)) =
       push_shift 60 (h_bitrate (hist p)) (bitrate (lastAudio p) sa)"
    by (simp add: updateDebugInfo_hist updateStatsHistory_series parseStats_def split_beta
        emptyReport_def parseAudio_def Let_def STATS_HISTORY_SIZE_def)
  from one two show ?thesis
    by (simp add: updateStatsHistory_series updateStatsHistory_ignores_video_bitrate
        parseStats_audio STATS_HISTORY_SIZE_def split: option.splits)
qed

text \<open>
  C9 at a sample with a video bitrate of 64000 and an audio bitrate of 1600: the series
  holds 1600 alone, and nothing when the sample has no audio entry.
\<close>

theorem bitrate_series_is_audio_witness:
  "h_bitrate (hist (updateDebugInfo 5 [InboundVideo (bytes_at 9000 1000)]
      (initialPlayer\<lparr> lastVideo := Some (bytes_at 1000 0), lastAudio := Some (bytes_at 100 0) \<rparr>))) = []
   \<and> h_bitrate (hist (updateDebugInfo 5
      [InboundVideo (bytes_at 9000 1000), InboundAudio (bytes_at 300 1000)]
      (initialPlayer\<lparr> lastVideo := Some (bytes_at 1000 0), lastAudio := Some (bytes_at 100 0) \<rparr>))) =
      [Some 1600]
   \<and> v_bitrate (fst (parseVideo 5 (bytes_at 9000 1000)
      (initialPlayer\<lparr> lastVideo := Some (bytes_at 1000 0), lastAudio := Some (bytes_at 100 0) \<rparr>))) =
      Some 64000"
  using bitrate_series_is_audio [where now = 5
      and p = "initialPlayer\<lparr> lastVideo := Some (bytes_at 1000 0), lastAudio := Some (bytes_at 100 0) \<rparr>"
      and sv = "bytes_at 9000 1000" and sa = "bytes_at 300 1000"]
  by (simp add: initialPlayer_def initialStatsHistory_def push_shift_def bitrate_def
      timeDiff_def prev0_def or0_def bytes_at_def parseVideo_def Let_def)

section \<open>The maximum observed frame rate\<close>

lemma onFrame_max:
  "maxFpsAchieved (pm (snd (onFrame now n m p))) =
     (if 1000 \<le> now - lastTime m
         \<and> maxFpsAchieved (pm p) < (frameCount m + (n - lastPresented m)) * 1000 / (now - lastTime m)
      then (frameCount m + (n - lastPresented m)) * 1000 / (now - lastTime m)
      else maxFpsAchieved (pm p))"
  by (simp add: onFrame_def Let_def)

lemma parseVideo_max:
  "maxFpsAchieved (pm (snd (parseVideo now s p))) =
     (if maxFpsAchieved (pm p) <
           (if videoFrameCallbackFps (pm p) \<noteq> 0 then videoFrameCallbackFps (pm p)
            else or0 (framesPerSecond s))
      then (if videoFrameCallbackFps (pm p) \<noteq> 0 then videoFrameCallbackFps (pm p)
            else or0 (framesPerSecond s))
      else maxFpsAchieved (pm p))"
  by (simp add: parseVideo_def Let_def)

lemma frameCallback_max:
  "maxFpsAchieved (pm p) \<le> maxFpsAchieved (pm (frameCallback k now n p))"
  by (simp add: frameCallback_def split_beta onFrame_max)

lemma parseEntry_max:
  "maxFpsAchieved (pm (snd rp)) \<le> maxFpsAchieved (pm (snd (parseEntry now rp e)))"
  by (cases rp; cases e) (simp_all add: split_beta parseVideo_max)

lemma foldl_parseEntry_max:
  "maxFpsAchieved (pm (snd rp)) \<le> maxFpsAchieved (pm (snd (foldl (parseEntry now) rp stats)))"
proof (induction stats rule: rev_induct)
  case Nil
  then show ?case by simp
next
  case (snoc e stats)
  have "maxFpsAchieved (pm (snd (foldl (parseEntry now) rp stats))) \<le>
        maxFpsAchieved (pm (snd (parseEntry now (foldl (parseEntry now) rp stats) e)))"
    by (rule parseEntry_max)
  with snoc show ?case by simp
qed

lemma updateDebugInfo_max:
  "maxFpsAchieved (pm p) \<le> maxFpsAchieved (pm (updateDebugInfo now stats p))"
  using foldl_parseEntry_max [of "(emptyReport, p)" now stats]
  by (simp add: updateDebugInfo_def parseStats_def split_beta)

lemma step_max:
  "maxFpsAchieved (pm p) \<le> maxFpsAchieved (pm (step p e))"
  by (cases e) (simp_all add: frameCallback_max updateDebugInfo_max)

lemma run_max:
  "maxFpsAchieved (pm p) \<le> maxFpsAchieved (pm (run p evs))"
proof (induction evs rule: rev_induct)
  case Nil
  then show ?case by (simp add: run_def)
next
  case (snoc e evs)
  have "maxFpsAchieved (pm (run p evs)) \<le> maxFpsAchieved (pm (step (run p evs) e))"
    by (rule step_max)
  with snoc show ?case by (simp add: run_def)
qed

text \<open>
  C7. \<open>maxFpsAchieved\<close> never decreases: it is no smaller after any event than before,
  hence no smaller after a longer run of events than after a shorter one. Its two
  writers, the frame callback and the video branch of \<open>parseStats\<close>, replace it by the
  current measurement exactly when that measurement is strictly greater, and keep it
  otherwise.
\<close>

theorem max_fps_never_decreases:
  "maxFpsAchieved (pm (run p evs)) \<le> maxFpsAchieved (pm (run p (evs @ later)))
   \<and> maxFpsAchieved (pm p) \<le> maxFpsAchieved (pm (step p e))
   \<and> maxFpsAchieved (pm (snd (onFrame now n m p))) =
       (if 1000 \<le> now - lastTime m
           \<and> maxFpsAchieved (pm p) < (frameCount m + (n - lastPresented m)) * 1000 / (now - lastTime m)
        then (frameCount m + (n - lastPresented m)) * 1000 / (now - lastTime m)
        else maxFpsAchieved (pm p))
   \<and> maxFpsAchieved (pm (snd (parseVideo now s p))) =
       (if maxFpsAchieved (pm p) <
             (if videoFrameCallbackFps (pm p) \<noteq> 0 then videoFrameCallbackFps (pm p)
              else or0 (framesPerSecond s))
        then (if videoFrameCallbackFps (pm p) \<noteq> 0 then videoFrameCallbackFps (pm p)
              else or0 (framesPerSecond s))
        else maxFpsAchieved (pm p))"
proof -
  have "run p (evs @ later) = run (run p evs) later"
    by (simp add: run_def)
  then have "maxFpsAchieved (pm (run p evs)) \<le> maxFpsAchieved (pm (run p (evs @ later)))"
    by (simp add: run_max)
  then show ?thesis
    using step_max [of p e] onFrame_max [of now n m p] parseVideo_max [of now s p]
    by blast
qed

text \<open>
  C7 on a session that measures 60 fps, then 30 fps, reconnects and takes a statistics
  sample: the maximum is 60 after the first measurement and still 60 at the end.
\<close>

theorem max_fps_never_decreases_witness:
  "maxFpsAchieved (pm (run initialPlayer [VideoTrack 0, PlaySettled (Resolved 10), Frame 0 1000 60])) = 60
   \<and> maxFpsAchieved (pm (run initialPlayer
       ([VideoTrack 0, PlaySettled (Resolved 10), Frame 0 1000 60] @
        [Frame 0 2000 90, ConnectionStateChange ''failed'', TimeoutFires CallStartPlaying,
         PlaySettled (Resolved 5010), StatsSample 5020 [InboundVideo (bytes_at 1000 0)]]))) = 60"
  using max_fps_never_decreases [where p = initialPlayer
      and evs = "[VideoTrack 0, PlaySettled (Resolved 10), Frame 0 1000 60]"
      and later = "[Frame 0 2000 90, ConnectionStateChange ''failed'', TimeoutFires CallStartPlaying,
         PlaySettled (Resolved 5010), StatsSample 5020 [InboundVideo (bytes_at 1000 0)]]"]
  by (simp add: player_defs stats_defs startPlaying_settled_def startPlaying_resolved_def
      startPlaying_begin_def showLoading_def onTimeout_def monitorVideoTrack_def frameCallback_def
      onFrame_def updateDebugInfo_def parseStats_def emptyReport_def updateStatsHistory_def
      push_shift_def STATS_HISTORY_SIZE_def initialPerformanceMetrics_def initialStatsHistory_def)

section \<open>Matching\<close>

lemma starts_with_append: "starts_with (t @ r) t"
  by (induction t) simp_all

lemma starts_with_iff: "starts_with s t \<longleftrightarrow> (\<exists>r. s = t @ r)"
proof (induction s t rule: starts_with.induct)
  case (1 s)
  then show ?case by simp
next
  case (2 c t)
  then show ?case by simp
next
  case (3 d s c t)
  then show ?case by auto
qed

lemma try_down_first:
  assumes "lo \<le> n" and "f n = Some r"
  shows "try_down f lo n = Some r"
  using assms by (cases n) simp_all

lemma takeWhile_run:
  assumes "list_all C l" and "case t of [] \<Rightarrow> True | c # cs \<Rightarrow> \<not> C c"
  shows "takeWhile C (l @ t) = l"
  using assms by (induction l) (simp_all split: list.splits)

lemma bt_Lit: "bt (Lit l # ps) (l @ t) caps = bt ps t caps"
  by (simp add: starts_with_append)

lemma bt_Star_full:
  assumes "list_all C l" and "case t of [] \<Rightarrow> True | c # cs \<Rightarrow> \<not> C c"
    and "bt ps t caps = Some r"
  shows "bt (Star C # ps) (l @ t) caps = Some r"
  using assms by (simp add: takeWhile_run try_down_first)

lemma bt_Plus_full:
  assumes "list_all C l" and "l \<noteq> []" and "case t of [] \<Rightarrow> True | c # cs \<Rightarrow> \<not> C c"
    and "bt ps t caps = Some r"
  shows "bt (Plus C # ps) (l @ t) caps = Some r"
proof -
  have "1 \<le> length l" using assms(2) by (cases l) simp_all
  then show ?thesis
    using assms by (simp add: takeWhile_run try_down_first)
qed

lemma bt_Cap_full:
  assumes "list_all C l" and "l \<noteq> []" and "case t of [] \<Rightarrow> True | c # cs \<Rightarrow> \<not> C c"
    and "bt ps t (caps @ [l]) = Some r"
  shows "bt (Cap C # ps) (l @ t) caps = Some r"
proof -
  have "1 \<le> length l" using assms(2) by (cases l) simp_all
  then show ?thesis
    using assms by (simp add: takeWhile_run try_down_first)
qed

lemma bt_Opt_line_end:
  assumes "line_end eol" and "bt ps t caps = Some r"
  shows "bt (Opt CR # Lit [LF] # ps) (eol @ t) caps = Some r"
  using assms by (auto simp add: line_end_def)

lemma js_match_here:
  assumes "bt ps s [] = Some r"
  shows "js_match ps s = Some r"
  using assms by (cases s) simp_all

section \<open>The codec pattern\<close>

lemma rtpmap_tail:
  assumes "token_end rest"
  shows "bt [Lit ''a=rtpmap:'', Cap is_digit, Plus is_space, Cap is_nonspace]
           (''a=rtpmap:96 H264/90000'' @ rest) [] = Some [''96'', ''H264/90000'']"
proof -
  have stop: "case rest of [] \<Rightarrow> True | c # cs \<Rightarrow> \<not> is_nonspace c"
    using assms by (simp add: token_end_def is_nonspace_def split: list.splits)
  have name: "bt [Cap is_nonspace] (''H264/90000'' @ rest) [''96''] = Some [''96'', ''H264/90000'']"
    by (rule bt_Cap_full [OF _ _ stop]) (simp_all add: is_nonspace_def is_space_def)
  have sp: "bt [Plus is_space, Cap is_nonspace] ('' '' @ ''H264/90000'' @ rest) [''96'']
              = Some [''96'', ''H264/90000'']"
    by (rule bt_Plus_full [OF _ _ _ name]) (simp_all add: is_nonspace_def is_space_def)
  have pt: "bt [Cap is_digit, Plus is_space, Cap is_nonspace]
              (''96'' @ '' '' @ ''H264/90000'' @ rest) [] = Some [''96'', ''H264/90000'']"
    by (rule bt_Cap_full) (use sp in \<open>simp_all add: is_digit_def\<close>)
  have "bt [Lit ''a=rtpmap:'', Cap is_digit, Plus is_space, Cap is_nonspace]
           (''a=rtpmap:'' @ ''96'' @ '' '' @ ''H264/90000'' @ rest) [] = Some [''96'', ''H264/90000'']"
    unfolding bt_Lit by (rule pt)
  then show ?thesis by simp
qed

lemma line_end_stops: "line_end eol \<Longrightarrow> case eol @ t of [] \<Rightarrow> True | c # cs \<Rightarrow> \<not> is_dot c"
  by (auto simp add: line_end_def is_dot_def)

lemma codec_here:
  assumes "line_body l1" and "line_body l2" and "line_end e1" and "line_end e2"
    and "token_end rest"
  shows "bt re_codec (''m=video'' @ l1 @ e1 @ l2 @ e2 @ ''a=rtpmap:96 H264/90000'' @ rest) []
           = Some [''96'', ''H264/90000'']"
proof -
  let ?tail = "[Lit ''a=rtpmap:'', Cap is_digit, Plus is_space, Cap is_nonspace]"
  let ?t3 = "''a=rtpmap:96 H264/90000'' @ rest"
  have a: "bt ?tail ?t3 [] = Some [''96'', ''H264/90000'']"
    by (rule rtpmap_tail [OF assms(5)])
  have b: "bt (Opt CR # Lit [LF] # ?tail) (e2 @ ?t3) [] = Some [''96'', ''H264/90000'']"
    by (rule bt_Opt_line_end [OF assms(4) a])
  have c: "bt (Star is_dot # Opt CR # Lit [LF] # ?tail) (l2 @ e2 @ ?t3) []
             = Some [''96'', ''H264/90000'']"
    using assms(2) by (intro bt_Star_full line_end_stops [OF assms(4)] b) (simp add: line_body_def)
  have d: "bt (Opt CR # Lit [LF] # Star is_dot # Opt CR # Lit [LF] # ?tail) (e1 @ l2 @ e2 @ ?t3) []
             = Some [''96'', ''H264/90000'']"
    by (rule bt_Opt_line_end [OF assms(3) c])
  have e: "bt (Star is_dot # Opt CR # Lit [LF] # Star is_dot # Opt CR # Lit [LF] # ?tail)
             (l1 @ e1 @ l2 @ e2 @ ?t3) [] = Some [''96'', ''H264/90000'']"
    using assms(1) by (intro bt_Star_full line_end_stops [OF assms(3)] d) (simp add: line_body_def)
  have "bt (Lit ''m=video'' # Star is_dot # Opt CR # Lit [LF] # Star is_dot # Opt CR # Lit [LF] # ?tail)
             (''m=video'' @ l1 @ e1 @ l2 @ e2 @ ?t3) [] = Some [''96'', ''H264/90000'']"
    unfolding bt_Lit by (rule e)
  then show ?thesis by (simp add: re_codec_def)
qed


lemma starts_with_app_Cons:
  "starts_with (xs @ ys) (c # t) =
     (case xs of [] \<Rightarrow> starts_with ys (c # t) | x # xs' \<Rightarrow> x = c \<and> starts_with (xs' @ ys) t)"
  by (cases xs) simp_all

lemma no_straddle:
  assumes "\<not> starts_with (c # suf) ''m=video''"
  shows "\<not> starts_with ((c # suf) @ ''m=video'' @ t) ''m=video''"
  using assms
  by (auto simp add: starts_with_app_Cons split: list.splits)

lemma js_match_skip:
  assumes "\<not> js_includes pre ''m=video''"
  shows "js_match (Lit ''m=video'' # ps) (pre @ ''m=video'' @ t) =
         js_match (Lit ''m=video'' # ps) (''m=video'' @ t)"
  using assms
proof (induction pre)
  case Nil
  then show ?case by simp
next
  case (Cons c suf)
  from Cons.prems have here: "\<not> starts_with (c # suf) ''m=video''"
    and later: "\<not> js_includes suf ''m=video''"
    by simp_all
  have "\<not> starts_with ((c # suf) @ ''m=video'' @ t) ''m=video''"
    by (rule no_straddle [OF here])
  then have "bt (Lit ''m=video'' # ps) ((c # suf) @ ''m=video'' @ t) [] = None"
    by (simp only: bt.simps if_False)
  then have "js_match (Lit ''m=video'' # ps) ((c # suf) @ ''m=video'' @ t) =
             js_match (Lit ''m=video'' # ps) (suf @ ''m=video'' @ t)"
    by simp
  with Cons.IH [OF later] show ?case by simp
qed

lemma codec_extracted:
  assumes "\<not> js_includes pre ''m=video''"
    and "line_body l1" and "line_body l2" and "line_end e1" and "line_end e2"
    and "token_end rest"
  shows "codec (extractVideoParams
           (pre @ ''m=video'' @ l1 @ e1 @ l2 @ e2 @ ''a=rtpmap:96 H264/90000'' @ rest))
         = Some ''H264/90000''"
proof -
  let ?t = "l1 @ e1 @ l2 @ e2 @ ''a=rtpmap:96 H264/90000'' @ rest"
  have "js_match re_codec (''m=video'' @ ?t) = Some [''96'', ''H264/90000'']"
    by (rule js_match_here [OF codec_here [OF assms(2-6)]])
  moreover have "js_match re_codec (pre @ ''m=video'' @ ?t) = js_match re_codec (''m=video'' @ ?t)"
    unfolding re_codec_def by (rule js_match_skip [OF assms(1)])
  ultimately show ?thesis
    by (simp add: extractVideoParams_def group_def)
qed

lemma lower_h264: "toLowerCase ''H264/90000'' = ''h264/90000''"
  by code_simp

lemma detect_h264:
  assumes "codec vp = Some ''H264/90000''"
  shows "detectCodecType vp old = Some ''H264/AVC''"
  using assms by (simp add: detectCodecType_def lower_h264)

section \<open>The profile identifier\<close>

lemma profile_here:
  assumes "starts_with s ''profile-id=1''"
  shows "bt re_profile s [] \<noteq> None"
proof -
  from assms obtain r where s: "s = ''profile-id='' @ CHR ''1'' # r"
    by (auto simp add: starts_with_iff)
  have "1 \<le> length (takeWhile is_digit (CHR ''1'' # r))"
    by (simp add: is_digit_def)
  then have "try_down (\<lambda>k. bt [] (drop k (CHR ''1'' # r)) ([] @ [take k (CHR ''1'' # r)])) 1
               (length (takeWhile is_digit (CHR ''1'' # r)))
             = Some [take (length (takeWhile is_digit (CHR ''1'' # r))) (CHR ''1'' # r)]"
    by (intro try_down_first) simp_all
  then have "bt [Cap is_digit] (CHR ''1'' # r) [] \<noteq> None"
    by (simp del: takeWhile.simps take_Suc_Cons)
  then show ?thesis
    unfolding s re_profile_def bt_Lit .
qed

lemma profile_found:
  assumes "js_includes sdp ''profile-id=1''"
  shows "js_match re_profile sdp \<noteq> None"
  using assms
proof (induction sdp)
  case Nil
  then show ?case by simp
next
  case (Cons c s)
  show ?case
  proof (cases "bt re_profile (c # s) []")
    case (Some r)
    then show ?thesis by simp
  next
    case None
    with profile_here [of "c # s"] have "\<not> starts_with (c # s) ''profile-id=1''"
      by blast
    with Cons.prems have "js_includes s ''profile-id=1''"
      by (simp only: js_includes.simps) blast
    with Cons.IH None show ?thesis by simp
  qed
qed

lemma bt_Cap_single:
  "bt [Cap C] s caps = Some r \<Longrightarrow> \<exists>x. r = caps @ [x]"
proof -
  have td: "try_down (\<lambda>k. Some (caps @ [take k s])) lo n = Some r \<Longrightarrow> \<exists>x. r = caps @ [x]"
    for lo n
    by (induction n) (auto split: if_splits)
  show "bt [Cap C] s caps = Some r \<Longrightarrow> \<exists>x. r = caps @ [x]"
    using td by simp
qed

lemma profile_caps:
  "bt re_profile s [] = Some r \<Longrightarrow> \<exists>x. r = [x]"
  using bt_Cap_single [of is_digit _ "[]" r]
  by (auto simp add: re_profile_def split: if_splits)

lemma js_match_profile_caps:
  "js_match re_profile s = Some r \<Longrightarrow> \<exists>x. r = [x]"
proof (induction s)
  case Nil
  then show ?case by (simp add: profile_caps)
next
  case (Cons c s)
  then show ?case
    by (cases "bt re_profile (c # s) []") (auto simp add: profile_caps)
qed

lemma profile_id_defined:
  assumes "js_includes sdp ''profile-id=1''"
  shows "h265ProfileId (extractVideoParams sdp) \<noteq> None"
proof -
  from profile_found [OF assms] obtain r where r: "js_match re_profile sdp = Some r"
    by auto
  with js_match_profile_caps obtain x where "r = [x]" by blast
  with r show ?thesis by (simp add: extractVideoParams_def group_def)
qed


section \<open>Classification\<close>

text \<open>
  C2, amended. Take an SDP text whose first \<open>m=video\<close> is followed, after the rest of
  its line and exactly one further line, by the line \<open>a=rtpmap:96 H264/90000\<close> (the text
  ending there or going on with white space): applying it as remote description sets
  \<open>codecType\<close> to \<open>H264/AVC\<close>. Take any SDP text that contains \<open>profile-id=1\<close> and from
  which no codec name is extracted: \<open>codecType\<close> becomes \<open>H265/HEVC\<close>. When neither a codec
  name nor a profile identifier is extracted, \<open>codecType\<close> keeps its value.
\<close>

theorem codec_classification:
  "(\<not> js_includes pre ''m=video'' \<and> line_body l1 \<and> line_body l2 \<and> line_end e1 \<and> line_end e2
      \<and> token_end rest \<longrightarrow>
      codecType (st (setRemoteDescription
        (pre @ ''m=video'' @ l1 @ e1 @ l2 @ e2 @ ''a=rtpmap:96 H264/90000'' @ rest) p))
      = Some ''H264/AVC'')
   \<and> (js_includes sdp ''profile-id=1'' \<and> codec (extractVideoParams sdp) = None \<longrightarrow>
        codecType (st (setRemoteDescription sdp p)) = Some ''H265/HEVC'')
   \<and> (codec (extractVideoParams sdp) = None \<and> h265ProfileId (extractVideoParams sdp) = None \<longrightarrow>
        codecType (st (setRemoteDescription sdp p)) = codecType (st p))"
proof -
  have h264: "codecType (st (setRemoteDescription
        (pre @ ''m=video'' @ l1 @ e1 @ l2 @ e2 @ ''a=rtpmap:96 H264/90000'' @ rest) p))
      = Some ''H264/AVC''"
    if "\<not> js_includes pre ''m=video''" "line_body l1" "line_body l2" "line_end e1" "line_end e2"
      "token_end rest"
    using detect_h264 [OF codec_extracted [OF that]]
    by (simp add: setRemoteDescription_def)
  have h265: "codecType (st (setRemoteDescription sdp p)) = Some ''H265/HEVC''"
    if "js_includes sdp ''profile-id=1''" "codec (extractVideoParams sdp) = None"
    using profile_id_defined [OF that(1)] that(2)
    by (auto simp add: setRemoteDescription_def detectCodecType_def)
  have none: "codecType (st (setRemoteDescription sdp p)) = codecType (st p)"
    if "codec (extractVideoParams sdp) = None" "h265ProfileId (extractVideoParams sdp) = None"
    using that by (simp add: setRemoteDescription_def detectCodecType_def)
  from h264 h265 none show ?thesis by blast
qed

lemmas sdp_defs =
  setRemoteDescription_def detectCodecType_def extractVideoParams_def group_def
  re_codec_def re_profile_def is_digit_def is_space_def is_nonspace_def is_dot_def

text \<open>
  C2 as stated fails: a text can contain the line \<open>a=rtpmap:96 H264/90000\<close> and leave
  \<open>codecType\<close> unset (here two lines stand between \<open>m=video\<close> and the line), or be
  classified as another codec (here the first \<open>rtpmap\<close> line after \<open>m=video\<close> names VP8).
\<close>

theorem rtpmap_line_not_classified:
  "js_includes
     (''m=video 9 UDP/TLS/RTP/SAVPF 96'' @ [CR, LF] @ ''c=IN IP4 0.0.0.0'' @ [CR, LF] @
      ''a=rtcp:9 IN IP4 0.0.0.0'' @ [CR, LF] @ ''a=rtpmap:96 H264/90000'' @ [CR, LF])
     ''a=rtpmap:96 H264/90000''
   \<and> codecType (st (setRemoteDescription
     (''m=video 9 UDP/TLS/RTP/SAVPF 96'' @ [CR, LF] @ ''c=IN IP4 0.0.0.0'' @ [CR, LF] @
      ''a=rtcp:9 IN IP4 0.0.0.0'' @ [CR, LF] @ ''a=rtpmap:96 H264/90000'' @ [CR, LF])
     initialPlayer)) = None
   \<and> js_includes
     (''m=video 9 UDP/TLS/RTP/SAVPF 97 96'' @ [LF] @ ''c=IN IP4 0.0.0.0'' @ [LF] @
      ''a=rtpmap:97 VP8/90000'' @ [LF] @ ''a=rtpmap:96 H264/90000'' @ [LF])
     ''a=rtpmap:96 H264/90000''
   \<and> codecType (st (setRemoteDescription
     (''m=video 9 UDP/TLS/RTP/SAVPF 97 96'' @ [LF] @ ''c=IN IP4 0.0.0.0'' @ [LF] @
      ''a=rtpmap:97 VP8/90000'' @ [LF] @ ''a=rtpmap:96 H264/90000'' @ [LF])
     initialPlayer)) = Some ''VP8''"
proof -
  have lower: "toLowerCase ''VP8/90000'' = ''vp8/90000''"
    by code_simp
  show ?thesis
    by (simp add: sdp_defs initialPlayer_def initializeState_def lower)
qed

text \<open>
  The amended C2 at a text where one line stands between \<open>m=video\<close> and the H264
  \<open>rtpmap\<close> line, at a text with \<open>profile-id=1\<close> and no codec name, and at the \<open>rtpmap\<close>
  line alone.
\<close>

theorem codec_classification_witness:
  "\<not> js_includes (''v=0'' @ [CR, LF]) ''m=video''
   \<and> line_body '' 9 UDP/TLS/RTP/SAVPF 96'' \<and> line_body ''c=IN IP4 0.0.0.0''
   \<and> line_end [CR, LF] \<and> token_end [CR, LF]
   \<and> codecType (st (setRemoteDescription
        ((''v=0'' @ [CR, LF]) @ ''m=video'' @ '' 9 UDP/TLS/RTP/SAVPF 96'' @ [CR, LF] @
         ''c=IN IP4 0.0.0.0'' @ [CR, LF] @ ''a=rtpmap:96 H264/90000'' @ [CR, LF]) initialPlayer))
      = Some ''H264/AVC''
   \<and> js_includes ''a=fmtp:98 profile-id=1'' ''profile-id=1''
   \<and> codec (extractVideoParams ''a=fmtp:98 profile-id=1'') = None
   \<and> codecType (st (setRemoteDescription ''a=fmtp:98 profile-id=1'' initialPlayer))
      = Some ''H265/HEVC''
   \<and> codec (extractVideoParams ''a=rtpmap:96 H264/90000'') = None
   \<and> h265ProfileId (extractVideoParams ''a=rtpmap:96 H264/90000'') = None
   \<and> codecType (st (setRemoteDescription ''a=rtpmap:96 H264/90000'' initialPlayer)) = None"
proof -
  have pre: "\<not> js_includes (''v=0'' @ [CR, LF]) ''m=video''"
    by simp
  have lines: "line_body '' 9 UDP/TLS/RTP/SAVPF 96''" "line_body ''c=IN IP4 0.0.0.0''"
    by (simp_all add: line_body_def is_dot_def)
  have ends: "line_end [CR, LF]" "token_end [CR, LF]"
    by (simp_all add: line_end_def token_end_def is_space_def)
  have inc: "js_includes ''a=fmtp:98 profile-id=1'' ''profile-id=1''"
    by simp
  have c1: "codec (extractVideoParams ''a=fmtp:98 profile-id=1'') = None"
    and c2: "codec (extractVideoParams ''a=rtpmap:96 H264/90000'') = None"
    and p2: "h265ProfileId (extractVideoParams ''a=rtpmap:96 H264/90000'') = None"
    by (simp_all add: extractVideoParams_def group_def re_codec_def re_profile_def)
  have init: "codecType (st initialPlayer) = None"
    by (simp add: initialPlayer_def initializeState_def)
  show ?thesis
    using codec_classification [where pre = "''v=0'' @ [CR, LF]"
        and ?l1.0 = "'' 9 UDP/TLS/RTP/SAVPF 96''" and ?l2.0 = "''c=IN IP4 0.0.0.0''"
        and ?e1.0 = "[CR, LF]" and ?e2.0 = "[CR, LF]" and rest = "[CR, LF]"
        and sdp = "''a=fmtp:98 profile-id=1''" and p = initialPlayer]
      codec_classification [where pre = "[]" and sdp = "''a=rtpmap:96 H264/90000''"
        and p = initialPlayer]
      pre lines ends inc c1 c2 p2 init
    by (simp only: simp_thms append_assoc)
qed

end
